theory Spec2Isabelle
  imports Complex_Main
begin

section \<open>JavaScript values used by the WAV encoder\<close>

text \<open>
  The samples of an AudioBuffer are the elements of a Float32Array: binary32 values,
  which are rationals, the two infinities or NaN. On such a sample the double
  arithmetic of the encoder agrees with exact arithmetic: clamping returns the sample
  or a bound; the product of a 24-bit significand with 32767 or 32768 has at most 40
  significant bits and is exact; and \<open>0.5 + sample\<close> is exact for samples in
  \<open>[-1, -1/2]\<close> and otherwise rounds to a number that is not negative, so the
  comparison with 0 comes out as for the exact sum. \<open>Fin r\<close> stands for the number \<open>r\<close>.
\<close>

datatype jsnum = Fin rat | PosInf | NegInf | NaN

text \<open>Exceptions: the ones the platform raises, and \<open>Error m\<close> for \<open>new Error(m)\<close>.\<close>

datatype exn = RangeError | IndexSizeError | TypeError | Error string

text \<open>\<open>Math.min(1, x)\<close> and \<open>Math.max(-1, x)\<close>.\<close>

fun math_min_1 :: "jsnum \<Rightarrow> jsnum" where
  "math_min_1 (Fin r) = Fin (min 1 r)"
| "math_min_1 PosInf = Fin 1"
| "math_min_1 NegInf = NegInf"
| "math_min_1 NaN = NaN"

fun math_max_neg1 :: "jsnum \<Rightarrow> jsnum" where
  "math_max_neg1 (Fin r) = Fin (max (- 1) r)"
| "math_max_neg1 PosInf = PosInf"
| "math_max_neg1 NegInf = Fin (- 1)"
| "math_max_neg1 NaN = NaN"

text \<open>
  The conditional \<open>0.5 + sample < 0 ? sample * 32768 : sample * 32767\<close>. The sum binds
  tighter than the comparison, so the test is \<open>(0.5 + sample) < 0\<close>; a comparison with
  NaN is false.
\<close>

fun scale :: "jsnum \<Rightarrow> jsnum" where
  "scale (Fin r) = Fin (if 1 / 2 + r < 0 then r * 32768 else r * 32767)"
| "scale PosInf = PosInf"
| "scale NegInf = NegInf"
| "scale NaN = NaN"

text \<open>
  \<open>x | 0\<close> is ToInt32: NaN and the infinities give 0, a finite number is truncated
  toward zero and reduced modulo \<open>2^32\<close> into the signed range.
\<close>

definition trunc :: "rat \<Rightarrow> int" where
  "trunc r = (if r < 0 then \<lceil>r\<rceil> else \<lfloor>r\<rfloor>)"

definition wrap_int32 :: "int \<Rightarrow> int" where
  "wrap_int32 t = (let m = t mod 4294967296 in if m \<ge> 2147483648 then m - 4294967296 else m)"

fun to_int32 :: "jsnum \<Rightarrow> int" where
  "to_int32 (Fin r) = wrap_int32 (trunc r)"
| "to_int32 PosInf = 0"
| "to_int32 NegInf = 0"
| "to_int32 NaN = 0"

text \<open>The two statements of the loop body that compute \<open>sample\<close>.\<close>

definition quantize :: "jsnum \<Rightarrow> int" where
  "quantize s = to_int32 (scale (math_max_neg1 (math_min_1 s)))"

section \<open>DataView over a zero-filled ArrayBuffer\<close>

text \<open>
  The buffer is a list of bytes (naturals below 256). A DataView setter throws a
  RangeError when the bytes would not fit, and otherwise overwrites them in place;
  all writes of the encoder are little-endian.
\<close>

definition le16 :: "nat \<Rightarrow> nat list" where
  "le16 n = [n mod 256, n div 256 mod 256]"

definition le32 :: "nat \<Rightarrow> nat list" where
  "le32 n = [n mod 256, n div 256 mod 256, n div 65536 mod 256, n div 16777216 mod 256]"

definition set_bytes :: "nat \<Rightarrow> nat list \<Rightarrow> nat list \<Rightarrow> exn + nat list" where
  "set_bytes off bs v =
     (if off + length bs \<le> length v
      then Inr (take off v @ bs @ drop (off + length bs) v)
      else Inl RangeError)"

text \<open>ToUint32, ToUint16 and ToInt16 keep the low bits of an integer.\<close>

definition dv_setUint32 :: "nat \<Rightarrow> int \<Rightarrow> nat list \<Rightarrow> exn + nat list" where
  "dv_setUint32 off d v = set_bytes off (le32 (nat (d mod 4294967296))) v"

definition dv_setUint16 :: "nat \<Rightarrow> int \<Rightarrow> nat list \<Rightarrow> exn + nat list" where
  "dv_setUint16 off d v = set_bytes off (le16 (nat (d mod 65536))) v"

definition dv_setInt16 :: "nat \<Rightarrow> int \<Rightarrow> nat list \<Rightarrow> exn + nat list" where
  "dv_setInt16 off d v = set_bytes off (le16 (nat (d mod 65536))) v"

text \<open>Reading a field back, as a consumer of the file does.\<close>

definition u16_at :: "nat list \<Rightarrow> nat \<Rightarrow> nat" where
  "u16_at v k = v ! k + 256 * v ! (k + 1)"

definition u32_at :: "nat list \<Rightarrow> nat \<Rightarrow> nat" where
  "u32_at v k = v ! k + 256 * v ! (k + 1) + 65536 * v ! (k + 2) + 16777216 * v ! (k + 3)"

definition s16_at :: "nat list \<Rightarrow> nat \<Rightarrow> int" where
  "s16_at v k = (let u = int (u16_at v k) in if u \<ge> 32768 then u - 65536 else u)"

definition ascii_at :: "nat list \<Rightarrow> nat \<Rightarrow> nat \<Rightarrow> string" where
  "ascii_at v k n = map char_of (take n (drop k v))"

section \<open>The encoder \<open>audioBufferToWav\<close>\<close>

text \<open>
  An AudioBuffer: its sample rate, its length in frames and the sample arrays of its
  channels; \<open>numberOfChannels\<close> is the number of arrays it holds.
\<close>

record audio_buffer =
  sampleRate :: nat
  length_frames :: nat
  channelData :: "jsnum list list"

definition numberOfChannels :: "audio_buffer \<Rightarrow> nat" where
  "numberOfChannels b = length (channelData b)"

definition getChannelData :: "audio_buffer \<Rightarrow> nat \<Rightarrow> exn + jsnum list" where
  "getChannelData b i =
     (if i < numberOfChannels b then Inr (channelData b ! i) else Inl IndexSizeError)"

text \<open>
  The writer state shared by the nested helpers \<open>setUint16\<close> and \<open>setUint32\<close>: the
  view and the cursor \<open>pos\<close>. Their argument is evaluated by the caller before the
  call, in the state of that moment, so it is a function of the state here.
\<close>

record writer =
  view :: "nat list"
  pos :: nat

definition setUint16 :: "(writer \<Rightarrow> int) \<Rightarrow> writer \<Rightarrow> exn + writer" where
  "setUint16 data w =
     (case dv_setUint16 (pos w) (data w) (view w) of
        Inl e \<Rightarrow> Inl e
      | Inr v \<Rightarrow> Inr (w\<lparr>view := v, pos := pos w + 2\<rparr>))"

definition setUint32 :: "(writer \<Rightarrow> int) \<Rightarrow> writer \<Rightarrow> exn + writer" where
  "setUint32 data w =
     (case dv_setUint32 (pos w) (data w) (view w) of
        Inl e \<Rightarrow> Inl e
      | Inr v \<Rightarrow> Inr (w\<lparr>view := v, pos := pos w + 4\<rparr>))"

text \<open>Statements in sequence; the first exception ends the run.\<close>

fun seqE :: "('s \<Rightarrow> exn + 's) list \<Rightarrow> 's \<Rightarrow> exn + 's" where
  "seqE [] s = Inr s"
| "seqE (f # fs) s = (case f s of Inl e \<Rightarrow> Inl e | Inr s' \<Rightarrow> seqE fs s')"

text \<open>The thirteen header writes, lines 120 to 134, with \<open>len\<close> for \<open>length\<close>.\<close>

definition write_header :: "audio_buffer \<Rightarrow> nat \<Rightarrow> writer \<Rightarrow> exn + writer" where
  "write_header b len =
     seqE
      [setUint32 (\<lambda>_. 0x46464952),
       setUint32 (\<lambda>_. int len - 8),
       setUint32 (\<lambda>_. 0x45564157),
       setUint32 (\<lambda>_. 0x20746d66),
       setUint32 (\<lambda>_. 16),
       setUint16 (\<lambda>_. 1),
       setUint16 (\<lambda>_. int (numberOfChannels b)),
       setUint32 (\<lambda>_. int (sampleRate b)),
       setUint32 (\<lambda>_. int (sampleRate b) * 2 * int (numberOfChannels b)),
       setUint16 (\<lambda>_. int (numberOfChannels b) * 2),
       setUint16 (\<lambda>_. 16),
       setUint32 (\<lambda>_. 0x61746164),
       setUint32 (\<lambda>w. int len - int (pos w) - 44)]"

text \<open>The loop of line 137: \<open>channels.push(buffer.getChannelData(i))\<close>.\<close>

function collect_channels :: "audio_buffer \<Rightarrow> nat \<Rightarrow> jsnum list list \<Rightarrow> exn + jsnum list list" where
  "collect_channels b i channels =
     (if i < numberOfChannels b
      then (case getChannelData b i of
              Inl e \<Rightarrow> Inl e
            | Inr c \<Rightarrow> collect_channels b (i + 1) (channels @ [c]))
      else Inr channels)"
  by pat_completeness auto
termination
  by (relation "measure (\<lambda>(b, i, channels). numberOfChannels b - i)") auto

text \<open>
  Reading \<open>channels[i][pos]\<close>: an index past the end of a typed array gives
  \<open>undefined\<close>, which \<open>Math.min\<close> turns into NaN; indexing a missing array throws.
\<close>

definition read_sample :: "jsnum list list \<Rightarrow> nat \<Rightarrow> nat \<Rightarrow> exn + jsnum" where
  "read_sample channels i p =
     (if i < length channels
      then Inr (if p < length (channels ! i) then channels ! i ! p else NaN)
      else Inl TypeError)"

text \<open>The body of the inner loop, lines 142 to 144 (the caller adds 2 to \<open>offset\<close>).\<close>

definition write_sample :: "jsnum list list \<Rightarrow> nat \<Rightarrow> nat \<Rightarrow> nat \<Rightarrow> nat list \<Rightarrow> exn + nat list" where
  "write_sample channels i p offset v =
     (case read_sample channels i p of
        Inl e \<Rightarrow> Inl e
      | Inr s \<Rightarrow> dv_setInt16 (44 + offset) (quantize s) v)"

function for_loop ::
  "nat \<Rightarrow> jsnum list list \<Rightarrow> nat \<Rightarrow> nat \<Rightarrow> nat \<Rightarrow> nat list \<Rightarrow> exn + (nat \<times> nat list)" where
  "for_loop numOfChan channels p i offset v =
     (if i < numOfChan
      then (case write_sample channels i p offset v of
              Inl e \<Rightarrow> Inl e
            | Inr v' \<Rightarrow> for_loop numOfChan channels p (i + 1) (offset + 2) v')
      else Inr (offset, v))"
  by pat_completeness auto
termination
  by (relation "measure (\<lambda>(numOfChan, channels, p, i, offset, v). numOfChan - i)") auto

text \<open>
  The outer loop \<open>while (pos < buffer.length)\<close>. Its counter is the variable \<open>pos\<close>
  that the header writes have advanced, so the first call receives the cursor as the
  header left it.
\<close>

function while_loop ::
  "audio_buffer \<Rightarrow> nat \<Rightarrow> jsnum list list \<Rightarrow> nat \<Rightarrow> nat \<Rightarrow> nat list \<Rightarrow> exn + nat list" where
  "while_loop b numOfChan channels p offset v =
     (if p < length_frames b
      then (case for_loop numOfChan channels p 0 offset v of
              Inl e \<Rightarrow> Inl e
            | Inr (offset', v') \<Rightarrow> while_loop b numOfChan channels (p + 1) offset' v')
      else Inr v)"
  by pat_completeness auto
termination
  by (relation "measure (\<lambda>(b, numOfChan, channels, p, offset, v). length_frames b - p)") auto

text \<open>The whole function; the result is the content of the Blob.\<close>

definition audioBufferToWav :: "audio_buffer \<Rightarrow> exn + nat list" where
  "audioBufferToWav b =
     (let numOfChan = numberOfChannels b;
          len = length_frames b * numOfChan * 2 + 44
      in case write_header b len \<lparr>view = replicate len 0, pos = 0\<rparr> of
           Inl e \<Rightarrow> Inl e
         | Inr w \<Rightarrow>
             (case collect_channels b 0 [] of
                Inl e \<Rightarrow> Inl e
              | Inr channels \<Rightarrow> while_loop b numOfChan channels (pos w) 0 (view w)))"


section \<open>Speech generation: \<open>generateTTS\<close>\<close>

text \<open>
  The message of an exception. The texts of the platform's own exceptions are the
  host's; \<open>new Error(m)\<close> carries \<open>m\<close>.
\<close>

fun message :: "exn \<Rightarrow> string" where
  "message (Error m) = m"
| "message RangeError = ''Offset is outside the bounds of the DataView''"
| "message IndexSizeError = ''The index is not in the allowed range''"
| "message TypeError = ''Cannot read properties of undefined''"

record TTSResponse =
  audioUrl :: "string option"
  error :: "string option"

text \<open>
  The collaborators of \<open>generateTTS\<close>, each returning a value or throwing:
  \<open>generateContent\<close> is the call of line 13 followed by the optional chain of line 26
  (\<open>None\<close> when a link of the chain is undefined); \<open>newAudioContext\<close> is the constructor
  call of line 32; \<open>decodeAudioData\<close> is \<open>decode\<close> followed by \<open>decodeAudioData\<close> of
  \<open>./audioUtils\<close> at 24000 Hz and one channel; \<open>createObjectURL\<close> is the platform's.
\<close>

record host =
  generateContent :: "string \<Rightarrow> exn + string option"
  newAudioContext :: "exn + unit"
  decodeAudioData :: "string \<Rightarrow> exn + audio_buffer"
  createObjectURL :: "nat list \<Rightarrow> exn + string"

text \<open>A string that may be undefined is truthy when it is defined and not empty.\<close>

definition truthy :: "string option \<Rightarrow> bool" where
  "truthy x = (case x of None \<Rightarrow> False | Some u \<Rightarrow> u \<noteq> [])"

text \<open>The body of the \<open>try\<close> block, lines 13 to 43.\<close>

definition generateTTS_try :: "host \<Rightarrow> string \<Rightarrow> exn + TTSResponse" where
  "generateTTS_try h text =
     (case generateContent h text of
        Inl e \<Rightarrow> Inl e
      | Inr base64Audio \<Rightarrow>
          if \<not> truthy base64Audio then Inl (Error ''No audio data returned'')
          else (case newAudioContext h of
                  Inl e \<Rightarrow> Inl e
                | Inr _ \<Rightarrow>
                    (case decodeAudioData h (the base64Audio) of
                       Inl e \<Rightarrow> Inl e
                     | Inr audioBuffer \<Rightarrow>
                         (case audioBufferToWav audioBuffer of
                            Inl e \<Rightarrow> Inl e
                          | Inr wavBlob \<Rightarrow>
                              (case createObjectURL h wavBlob of
                                 Inl e \<Rightarrow> Inl e
                               | Inr url \<Rightarrow> Inr \<lparr>audioUrl = Some url, error = None\<rparr>)))))"

text \<open>
  The \<open>catch\<close> block, lines 44 to 47: \<open>error.message || "Failed to generate speech"\<close>.
  The result of \<open>generateTTS\<close> is \<open>Inl\<close> when the promise rejects.
\<close>

definition generateTTS_catch :: "exn \<Rightarrow> exn + TTSResponse" where
  "generateTTS_catch e =
     Inr \<lparr>audioUrl = None,
          error = Some (if message e \<noteq> [] then message e else ''Failed to generate speech'')\<rparr>"

definition generateTTS :: "host \<Rightarrow> string \<Rightarrow> exn + TTSResponse" where
  "generateTTS h text =
     (case generateTTS_try h text of Inl e \<Rightarrow> generateTTS_catch e | Inr r \<Rightarrow> Inr r)"

section \<open>The playback controllers\<close>

text \<open>
  What a view does to the page around it: the audio elements it has created
  (\<open>new Audio(url)\<close> returns the handle \<open>created\<close>), the elements that are sounding
  (played, and neither paused nor ended nor failed since), the alerts shown, the
  calls of \<open>generateTTS\<close> issued (identifier and text), and the identifiers of the
  calls still in flight.
\<close>

record page =
  created :: nat
  sounding :: "nat set"
  alerts :: "string list"
  requests :: "(string \<times> string) list"
  pending :: "string list"

text \<open>The phase of a controller, as the specification names it.\<close>

datatype phase = Idle | Generating string | Playing string

subsection \<open>The playback cache\<close>

text \<open>
  Both views keep the cache as an object from identifiers to URLs. A lookup is
  \<open>cache[id]\<close>; the only update is \<open>prev => ({ ...prev, [id]: audioUrl })\<close>, a copy of
  the object with the key set.
\<close>

definition cache_get :: "(string \<rightharpoonup> string) \<Rightarrow> string \<Rightarrow> string option" where
  "cache_get c ident = c ident"

definition cache_put :: "(string \<rightharpoonup> string) \<Rightarrow> string \<Rightarrow> string \<Rightarrow> (string \<rightharpoonup> string)" where
  "cache_put prev ident audioUrl' = prev(ident \<mapsto> audioUrl')"

subsection \<open>ResourceView\<close>

record resource =
  res_id :: string
  res_data :: string

record rv_state = page +
  playingResourceId :: "string option"
  generatingAudioId :: "string option"
  audioCache :: "string \<rightharpoonup> string"
  currentAudioRef :: "nat option"
  onerror_alert :: "nat \<rightharpoonup> string"

definition rv_init :: rv_state where
  "rv_init =
     \<lparr>created = 0, sounding = {}, alerts = [], requests = [], pending = [],
      playingResourceId = None, generatingAudioId = None, audioCache = Map.empty,
      currentAudioRef = None, onerror_alert = Map.empty\<rparr>"

text \<open>
  \<open>handleStopTTS\<close>, lines 140 to 147. Pausing takes the element out of the sounding
  ones; the reset of its \<open>currentTime\<close> changes nothing that is kept here.
\<close>

definition handleStopTTS :: "rv_state \<Rightarrow> rv_state" where
  "handleStopTTS s =
     (case currentAudioRef s of
        Some a \<Rightarrow> s\<lparr>sounding := sounding s - {a}, currentAudioRef := None,
                    playingResourceId := None\<rparr>
      | None \<Rightarrow> s\<lparr>playingResourceId := None\<rparr>)"

text \<open>
  The block that both paths of \<open>handlePlayTTS\<close> run to start a stream (lines 165 to
  177 and 189 to 201): create the element, store it in the ref, set the playing
  identifier, play, and attach the two callbacks; \<open>msg\<close> is the alert of \<open>onerror\<close>.
\<close>

definition rv_start_audio :: "string \<Rightarrow> string \<Rightarrow> rv_state \<Rightarrow> rv_state" where
  "rv_start_audio ident msg s =
     s\<lparr>created := created s + 1,
       currentAudioRef := Some (created s),
       playingResourceId := Some ident,
       sounding := insert (created s) (sounding s),
       onerror_alert := (onerror_alert s)(created s \<mapsto> msg)\<rparr>"

text \<open>\<open>handlePlayTTS\<close> after the stop of a previous stream: lines 164 to 183.\<close>

definition rv_play_or_generate :: "rv_state \<Rightarrow> resource \<Rightarrow> rv_state" where
  "rv_play_or_generate s r =
     (if truthy (cache_get (audioCache s) (res_id r))
      then rv_start_audio (res_id r) ''Error playing audio.'' s
      else s\<lparr>generatingAudioId := Some (res_id r),
             requests := requests s @ [(res_id r, res_data r)],
             pending := pending s @ [res_id r]\<rparr>)"

text \<open>\<open>handlePlayTTS\<close> up to its \<open>return\<close> or its \<open>await\<close>, lines 149 to 183.\<close>

definition handlePlayTTS :: "rv_state \<Rightarrow> resource \<Rightarrow> rv_state" where
  "handlePlayTTS s r =
     (if playingResourceId s = Some (res_id r) then handleStopTTS s
      else rv_play_or_generate (if currentAudioRef s \<noteq> None then handleStopTTS s else s) r)"

text \<open>The rest of \<open>handlePlayTTS\<close>, once \<open>generateTTS\<close> has resolved: lines 185 to 204.\<close>

definition handlePlayTTS_resumed :: "rv_state \<Rightarrow> string \<Rightarrow> TTSResponse \<Rightarrow> rv_state" where
  "handlePlayTTS_resumed s ident resp =
     (let s1 = s\<lparr>generatingAudioId := None, pending := remove1 ident (pending s)\<rparr>
      in if truthy (audioUrl resp)
         then rv_start_audio ident ''Error playing generated audio.''
                (s1\<lparr>audioCache := cache_put (audioCache s1) ident (the (audioUrl resp))\<rparr>)
         else s1\<lparr>alerts := alerts s1 @
                   [''TTS Error: '' @ (case error resp of Some e \<Rightarrow> e | None \<Rightarrow> ''undefined'')]\<rparr>)"

text \<open>The callbacks \<open>onended\<close> and \<open>onerror\<close> of an element that stops sounding.\<close>

definition rv_onended :: "rv_state \<Rightarrow> nat \<Rightarrow> rv_state" where
  "rv_onended s a =
     s\<lparr>sounding := sounding s - {a}, playingResourceId := None, currentAudioRef := None\<rparr>"

definition rv_onerror :: "rv_state \<Rightarrow> nat \<Rightarrow> rv_state" where
  "rv_onerror s a =
     s\<lparr>sounding := sounding s - {a}, playingResourceId := None, currentAudioRef := None,
       alerts := alerts s @ (case onerror_alert s a of Some m \<Rightarrow> [m] | None \<Rightarrow> [])\<rparr>"

text \<open>What \<open>handleBack\<close> does to the playback state, lines 101 to 107.\<close>

definition handleBack :: "rv_state \<Rightarrow> rv_state" where
  "handleBack s =
     (case currentAudioRef s of
        Some a \<Rightarrow> s\<lparr>sounding := sounding s - {a}, currentAudioRef := None,
                    playingResourceId := None\<rparr>
      | None \<Rightarrow> s)"

datatype rv_event =
  Click resource | Resolved string TTSResponse | Ended nat | Errored nat | Back

fun rv_step :: "rv_state \<Rightarrow> rv_event \<Rightarrow> rv_state" where
  "rv_step s (Click r) = handlePlayTTS s r"
| "rv_step s (Resolved ident resp) = handlePlayTTS_resumed s ident resp"
| "rv_step s (Ended a) = rv_onended s a"
| "rv_step s (Errored a) = rv_onerror s a"
| "rv_step s Back = handleBack s"

definition rv_run :: "rv_state \<Rightarrow> rv_event list \<Rightarrow> rv_state" where
  "rv_run s es = foldl rv_step s es"

definition rv_phase :: "rv_state \<Rightarrow> phase" where
  "rv_phase s =
     (case generatingAudioId s of
        Some g \<Rightarrow> Generating g
      | None \<Rightarrow> (case playingResourceId s of Some p \<Rightarrow> Playing p | None \<Rightarrow> Idle))"

text \<open>
  The play button of a resource is disabled while its own audio is being generated.
\<close>

definition rv_button_enabled :: "rv_state \<Rightarrow> string \<Rightarrow> bool" where
  "rv_button_enabled s ident = (generatingAudioId s \<noteq> Some ident)"

text \<open>
  Sequences of events in which the user makes no request while a generation call is
  in flight: a click needs an empty \<open>pending\<close>, a resolution belongs to a call in
  flight, and only a sounding element ends or fails.
\<close>

fun rv_event_ok :: "rv_state \<Rightarrow> rv_event \<Rightarrow> bool" where
  "rv_event_ok s (Click r) = (pending s = [])"
| "rv_event_ok s (Resolved ident resp) = (ident \<in> set (pending s))"
| "rv_event_ok s (Ended a) = (a \<in> sounding s)"
| "rv_event_ok s (Errored a) = (a \<in> sounding s)"
| "rv_event_ok s Back = True"

fun rv_sequential :: "rv_state \<Rightarrow> rv_event list \<Rightarrow> bool" where
  "rv_sequential s [] = True"
| "rv_sequential s (e # es) = (rv_event_ok s e \<and> rv_sequential (rv_step s e) es)"

subsection \<open>AnnouncementView\<close>

record announcement =
  ann_id :: string
  ann_title :: string
  ann_content :: string

record av_state = page +
  playingId :: "string option"
  audioMap :: "string \<rightharpoonup> string"

definition av_init :: av_state where
  "av_init =
     \<lparr>created = 0, sounding = {}, alerts = [], requests = [], pending = [],
      playingId = None, audioMap = Map.empty\<rparr>"

text \<open>Creating and playing an element, lines 61 to 63 and 75 to 76.\<close>

definition av_play_new :: "av_state \<Rightarrow> av_state" where
  "av_play_new s = s\<lparr>created := created s + 1, sounding := insert (created s) (sounding s)\<rparr>"

text \<open>\<open>handlePlayTTS\<close> up to its \<open>return\<close> or its \<open>await\<close>, lines 57 to 71.\<close>

definition av_handlePlayTTS :: "av_state \<Rightarrow> announcement \<Rightarrow> av_state" where
  "av_handlePlayTTS s item =
     (if playingId s = Some (ann_id item) then s
      else if truthy (cache_get (audioMap s) (ann_id item))
      then av_play_new (s\<lparr>playingId := Some (ann_id item)\<rparr>)
      else s\<lparr>playingId := Some (ann_id item),
             requests := requests s @ [(ann_id item, ann_title item @ ''. '' @ ann_content item)],
             pending := pending s @ [ann_id item]\<rparr>)"

text \<open>The rest of it, once \<open>generateTTS\<close> has resolved: lines 73 to 82.\<close>

definition av_handlePlayTTS_resumed :: "av_state \<Rightarrow> string \<Rightarrow> TTSResponse \<Rightarrow> av_state" where
  "av_handlePlayTTS_resumed s ident resp =
     (let s1 = s\<lparr>pending := remove1 ident (pending s)\<rparr>
      in if truthy (audioUrl resp)
         then av_play_new (s1\<lparr>audioMap := cache_put (audioMap s1) ident (the (audioUrl resp))\<rparr>)
         else s1\<lparr>alerts := alerts s1 @
                   [''TTS Error: '' @ (case error resp of Some e \<Rightarrow> e | None \<Rightarrow> ''undefined'')],
                 playingId := None\<rparr>)"

text \<open>Both callbacks of an element are \<open>() => setPlayingId(null)\<close>.\<close>

definition av_onended :: "av_state \<Rightarrow> nat \<Rightarrow> av_state" where
  "av_onended s a = s\<lparr>sounding := sounding s - {a}, playingId := None\<rparr>"

datatype av_event =
  AvClick announcement | AvResolved string TTSResponse | AvEnded nat | AvErrored nat

fun av_step :: "av_state \<Rightarrow> av_event \<Rightarrow> av_state" where
  "av_step s (AvClick item) = av_handlePlayTTS s item"
| "av_step s (AvResolved ident resp) = av_handlePlayTTS_resumed s ident resp"
| "av_step s (AvEnded a) = av_onended s a"
| "av_step s (AvErrored a) = av_onended s a"

definition av_run :: "av_state \<Rightarrow> av_event list \<Rightarrow> av_state" where
  "av_run s es = foldl av_step s es"

definition av_phase :: "av_state \<Rightarrow> phase" where
  "av_phase s = (case playingId s of Some p \<Rightarrow> Playing p | None \<Rightarrow> Idle)"

text \<open>The play button of an announcement is disabled while \<open>playingId\<close> is its id.\<close>

definition av_button_enabled :: "av_state \<Rightarrow> string \<Rightarrow> bool" where
  "av_button_enabled s ident = (playingId s \<noteq> Some ident)"

section \<open>The statements of the specification, and the notions of the proofs\<close>

text \<open>
  Clamping to \<open>[-1, 1]\<close> and truncation toward zero, written independently of the code,
  and the quantisation rule in two forms: as the specification words it (the scale is
  chosen by the sign of the clamped value), and with the threshold the code tests.
\<close>

definition clamp_unit :: "rat \<Rightarrow> rat" where
  "clamp_unit s = max (- 1) (min 1 s)"

definition toward_zero :: "rat \<Rightarrow> int" where
  "toward_zero r = (if 0 \<le> r then \<lfloor>r\<rfloor> else - \<lfloor>- r\<rfloor>)"

definition quantize_spec :: "rat \<Rightarrow> int" where
  "quantize_spec s =
     (let c = clamp_unit s in toward_zero (if c < 0 then c * 32768 else c * 32767))"

definition quantize_law :: "rat \<Rightarrow> int" where
  "quantize_law s =
     (let c = clamp_unit s in toward_zero (if c < - (1 / 2) then c * 32768 else c * 32767))"

text \<open>
  The writer after the bytes \<open>pre\<close> have been written to the front of a zero-filled
  buffer with \<open>k\<close> bytes still untouched, and the 44 bytes that the header writes
  produce for a buffer whose data takes \<open>m\<close> bytes.
\<close>

definition written :: "nat list \<Rightarrow> nat \<Rightarrow> writer" where
  "written pre k = \<lparr>view = pre @ replicate k 0, pos = length pre\<rparr>"

definition header_bytes :: "audio_buffer \<Rightarrow> nat \<Rightarrow> nat list" where
  "header_bytes b m =
     le32 0x46464952 @ le32 ((36 + m) mod 4294967296) @ le32 0x45564157 @
     le32 0x20746d66 @ le32 16 @ le16 1 @
     le16 (numberOfChannels b mod 65536) @
     le32 (sampleRate b mod 4294967296) @
     le32 (sampleRate b * 2 * numberOfChannels b mod 4294967296) @
     le16 (numberOfChannels b * 2 mod 65536) @
     le16 16 @
     le32 0x61746164 @ le32 (nat ((int m - 40) mod 4294967296))"

text \<open>
  The buffer of the specification's round-trip scenario with the bytes the encoder
  returns for it, and one second of silence at 24 kHz.
\<close>

definition roundtrip_buffer :: audio_buffer where
  "roundtrip_buffer =
     \<lparr>sampleRate = 24000, length_frames = 4,
      channelData = [[Fin 0, Fin (1 / 2), Fin (- (1 / 2)), Fin 1]]\<rparr>"

definition roundtrip_bytes :: "nat list" where
  "roundtrip_bytes =
     [82, 73, 70, 70, 44, 0, 0, 0, 87, 65, 86, 69,
      102, 109, 116, 32, 16, 0, 0, 0, 1, 0, 1, 0,
      192, 93, 0, 0, 128, 187, 0, 0, 2, 0, 16, 0,
      100, 97, 116, 97, 224, 255, 255, 255,
      0, 0, 0, 0, 0, 0, 0, 0]"

definition one_second_silence :: audio_buffer where
  "one_second_silence =
     \<lparr>sampleRate = 24000, length_frames = 24000, channelData = [replicate 24000 (Fin 0)]\<rparr>"

text \<open>
  The response that \<open>generateTTS\<close> is to give when something throws \<open>e\<close>: no URL, and
  the message of \<open>e\<close> or, when that is empty, the fixed text.
\<close>

definition failure_response :: "exn \<Rightarrow> TTSResponse" where
  "failure_response e =
     \<lparr>audioUrl = None,
      error = Some (if message e = [] then ''Failed to generate speech'' else message e)\<rparr>"

text \<open>Responses, items and hosts for the concrete runs below.\<close>

definition ok_response :: "string \<Rightarrow> TTSResponse" where
  "ok_response u = \<lparr>audioUrl = Some u, error = None\<rparr>"

definition no_audio_response :: TTSResponse where
  "no_audio_response = \<lparr>audioUrl = None, error = Some ''No audio data returned''\<rparr>"

definition silent_host :: host where
  "silent_host =
     \<lparr>generateContent = (\<lambda>_. Inr None), newAudioContext = Inr (),
      decodeAudioData = (\<lambda>_. Inl (Error ''not reached'')),
      createObjectURL = (\<lambda>_. Inr ''blob:0'')\<rparr>"

definition speaking_host :: host where
  "speaking_host =
     \<lparr>generateContent = (\<lambda>_. Inr (Some ''AAAA'')), newAudioContext = Inr (),
      decodeAudioData = (\<lambda>_. Inr roundtrip_buffer),
      createObjectURL = (\<lambda>_. Inr ''blob:0'')\<rparr>"

definition res_a :: resource where
  "res_a = \<lparr>res_id = ''r1'', res_data = ''Krebs cycle''\<rparr>"

definition res_b :: resource where
  "res_b = \<lparr>res_id = ''r2'', res_data = ''Glycolysis''\<rparr>"

definition ann_a :: announcement where
  "ann_a = \<lparr>ann_id = ''a1'', ann_title = ''Exam'', ann_content = ''Monday''\<rparr>"

definition ann_b :: announcement where
  "ann_b = \<lparr>ann_id = ''a2'', ann_title = ''Lab'', ann_content = ''Friday''\<rparr>"

text \<open>
  The invariant of ResourceView on sequential runs: a sounding element is the one in
  the ref, the ref holds an element already created, at most one generation call is
  in flight, and none is in flight while the ref is set.
\<close>

definition rv_inv :: "rv_state \<Rightarrow> bool" where
  "rv_inv s =
     (sounding s \<subseteq> set_option (currentAudioRef s)
      \<and> (\<forall>a \<in> set_option (currentAudioRef s). a < created s)
      \<and> length (pending s) \<le> 1
      \<and> (pending s \<noteq> [] \<longrightarrow> currentAudioRef s = None))"


text \<open>
  Two more facts of sequential runs: the playing identifier is set only while the ref
  is, and an identifier is being generated only while a call is in flight.
\<close>

definition rv_gen_inv :: "rv_state \<Rightarrow> bool" where
  "rv_gen_inv s =
     ((currentAudioRef s = None \<longrightarrow> playingResourceId s = None)
      \<and> (generatingAudioId s \<noteq> None \<longrightarrow> pending s \<noteq> []))"


section \<open>Arithmetic of little-endian fields\<close>

declare for_loop.simps [simp del] while_loop.simps [simp del] collect_channels.simps [simp del]

lemma le32_len [simp]: "length (le32 n) = 4"
  by (simp add: le32_def)

lemma le16_len [simp]: "length (le16 n) = 2"
  by (simp add: le16_def)

lemma u16_of_le16: "(n::nat) mod 256 + 256 * (n div 256 mod 256) = n mod 65536"
  using mod_mult2_eq [of n 256 256] by simp

lemma u32_of_le32:
  "(n::nat) mod 256 + 256 * (n div 256 mod 256) + 65536 * (n div 65536 mod 256)
     + 16777216 * (n div 16777216 mod 256) = n mod 4294967296"
proof -
  have lo: "n mod 65536 = n mod 256 + 256 * (n div 256 mod 256)"
    using mod_mult2_eq [of n 256 256] by simp
  have "n div 65536 div 256 = n div 16777216"
    by (simp add: div_mult2_eq [symmetric])
  then have hi: "n div 65536 mod 65536
                   = n div 65536 mod 256 + 256 * (n div 16777216 mod 256)"
    using mod_mult2_eq [of "n div 65536" 256 256] by simp
  have "n mod 4294967296 = 65536 * (n div 65536 mod 65536) + n mod 65536"
    using mod_mult2_eq [of n 65536 65536] by simp
  with lo hi show ?thesis by simp
qed

lemma signed_mod:
  fixes t :: int
  assumes "0 < h" "- h \<le> t" "t < h" "M = 2 * h"
  shows "(if h \<le> t mod M then t mod M - M else t mod M) = t"
proof (cases "0 \<le> t")
  case True
  then have "t mod M = t" using assms by (simp add: mod_pos_pos_trivial)
  then show ?thesis using assms by simp
next
  case False
  have "(t + M) mod M = t + M"
    using False assms by (intro mod_pos_pos_trivial) auto
  then have "t mod M = t + M" by simp
  then show ?thesis using False assms by simp
qed

lemma nat_int_mod: "nat (int a mod int k) = a mod k"
  by (simp add: nat_mod_distrib)

lemma floor_numeral_div_rat:
  "\<lfloor>numeral a / numeral b :: rat\<rfloor> = numeral a div numeral b"
  using floor_divide_of_int_eq [of "numeral a" "numeral b", where ?'a = rat] by simp

lemma floor_neg_numeral_div_rat:
  "\<lfloor>- (numeral a / numeral b) :: rat\<rfloor> = - numeral a div numeral b"
  using floor_divide_of_int_eq [of "- numeral a" "numeral b", where ?'a = rat] by simp

lemma u32_at_le32: "k = length pre \<Longrightarrow> u32_at (pre @ le32 n @ post) k = n mod 4294967296"
  by (simp add: u32_at_def nth_append le32_def u32_of_le32)

lemma u16_at_le16: "k = length pre \<Longrightarrow> u16_at (pre @ le16 n @ post) k = n mod 65536"
  by (simp add: u16_at_def nth_append le16_def u16_of_le16)

lemma ascii_at_le32:
  "k = length pre \<Longrightarrow> ascii_at (pre @ le32 n @ post) k 4 = map char_of (le32 n)"
  by (simp add: ascii_at_def)

lemma u32_at_take: "k + 4 \<le> n \<Longrightarrow> u32_at (take n v) k = u32_at v k"
  by (simp add: u32_at_def)

lemma u16_at_take: "k + 2 \<le> n \<Longrightarrow> u16_at (take n v) k = u16_at v k"
  by (simp add: u16_at_def)

lemma ascii_at_take: "k + j \<le> n \<Longrightarrow> ascii_at (take n v) k j = ascii_at v k j"
  by (simp add: ascii_at_def drop_take min_def)

lemma chunk_tags:
  "map char_of (le32 0x46464952) = ''RIFF''"
  "map char_of (le32 0x45564157) = ''WAVE''"
  "map char_of (le32 0x20746d66) = ''fmt ''"
  "map char_of (le32 0x61746164) = ''data''"
  by (simp_all add: le32_def char_of_def bit_0)

section \<open>The quantiser\<close>

lemma trunc_toward_zero: "trunc r = toward_zero r"
  by (auto simp: trunc_def toward_zero_def ceiling_def)

lemma quantize_law_range: "- 32768 \<le> quantize_law s \<and> quantize_law s \<le> 32767"
proof -
  let ?c = "clamp_unit s"
  have c: "- 1 \<le> ?c" "?c \<le> 1" by (auto simp: clamp_unit_def)
  show ?thesis
  proof (cases "?c < - (1 / 2)")
    case True
    then have "- 32768 \<le> ?c * 32768" "?c * 32768 < 0" using c by auto
    then show ?thesis using True
      by (simp add: quantize_law_def Let_def toward_zero_def) linarith
  next
    case False
    then have "- 32767 \<le> ?c * 32767" "?c * 32767 \<le> 32767" using c by auto
    then show ?thesis using False
      by (simp add: quantize_law_def Let_def toward_zero_def) linarith
  qed
qed

lemma wrap_int32_id: "- 2147483648 \<le> t \<Longrightarrow> t < 2147483648 \<Longrightarrow> wrap_int32 t = t"
  using signed_mod [of 2147483648 t 4294967296] by (simp add: wrap_int32_def Let_def)

lemma quantize_Fin: "quantize (Fin s) = quantize_law s"
proof -
  let ?c = "clamp_unit s"
  have "quantize (Fin s)
          = wrap_int32 (trunc (if 1 / 2 + ?c < 0 then ?c * 32768 else ?c * 32767))"
    by (simp only: quantize_def math_min_1.simps math_max_neg1.simps scale.simps
        to_int32.simps clamp_unit_def)
  moreover have "(1 / 2 + ?c < 0) = (?c < - (1 / 2))" by auto
  ultimately have "quantize (Fin s) = wrap_int32 (quantize_law s)"
    by (simp only: quantize_law_def Let_def trunc_toward_zero)
  then show ?thesis using quantize_law_range [of s] by (simp add: wrap_int32_id)
qed

lemma quantize_not_finite:
  "quantize PosInf = 32767" "quantize NegInf = - 32768" "quantize NaN = 0"
  by (simp_all add: quantize_def trunc_def wrap_int32_def)

lemma s16_at_written:
  assumes "off + 2 \<le> length v" "- 32768 \<le> q" "q \<le> 32767"
  shows "s16_at (take off v @ le16 (nat (q mod 65536)) @ drop (off + 2) v) off = q"
proof -
  let ?u = "nat (q mod 65536)"
  have len: "length (take off v) = off" using assms(1) by simp
  have "u16_at (take off v @ le16 ?u @ drop (off + 2) v) off = ?u mod 65536"
    using len by (simp add: u16_at_def nth_append le16_def u16_of_le16)
  moreover have "?u < 65536" by simp
  ultimately have u: "int (u16_at (take off v @ le16 ?u @ drop (off + 2) v) off) = q mod 65536"
    by simp
  show ?thesis
    unfolding s16_at_def u using signed_mod [of 32768 q 65536] assms(2,3) by (simp add: Let_def)
qed

lemma write_sample_Fin:
  assumes "i < length channels" "p < length (channels ! i)" "channels ! i ! p = Fin s"
    and "46 + offset \<le> length v"
  shows "\<exists>v'. write_sample channels i p offset v = Inr v'
           \<and> s16_at v' (44 + offset) = quantize_law s"
proof -
  let ?q = "quantize_law s"
  have w: "write_sample channels i p offset v
             = Inr (take (44 + offset) v @ le16 (nat (?q mod 65536)) @ drop (44 + offset + 2) v)"
    using assms by (simp add: write_sample_def read_sample_def dv_setInt16_def set_bytes_def
        quantize_Fin)
  have "s16_at (take (44 + offset) v @ le16 (nat (?q mod 65536)) @ drop (44 + offset + 2) v)
          (44 + offset) = ?q"
    using assms(4) quantize_law_range [of s] by (intro s16_at_written) auto
  with w show ?thesis by simp
qed

section \<open>The header writes\<close>

lemma pos_written [simp]: "pos (written pre k) = length pre"
  by (simp add: written_def)

lemma length_header_bytes [simp]: "length (header_bytes b m) = 44"
  by (simp add: header_bytes_def)

lemma setUint32_written:
  "4 \<le> k \<Longrightarrow> setUint32 d (written pre k) =
     Inr (written (pre @ le32 (nat (d (written pre k) mod 4294967296))) (k - 4))"
  by (simp add: setUint32_def dv_setUint32_def set_bytes_def written_def)

lemma setUint16_written:
  "2 \<le> k \<Longrightarrow> setUint16 d (written pre k) =
     Inr (written (pre @ le16 (nat (d (written pre k) mod 65536))) (k - 2))"
  by (simp add: setUint16_def dv_setUint16_def set_bytes_def written_def)

lemma write_header_written:
  "write_header b (m + 44) (written [] (m + 44)) = Inr (written (header_bytes b m) m)"
proof -
  have a: "nat ((36 + int m) mod 4294967296) = (36 + m) mod 4294967296"
    using nat_int_mod [of "36 + m" 4294967296] by (simp add: add.commute)
  have c: "nat (int (numberOfChannels b) mod 65536) = numberOfChannels b mod 65536"
    using nat_int_mod [of "numberOfChannels b" 65536] by simp
  have r: "nat (int (sampleRate b) mod 4294967296) = sampleRate b mod 4294967296"
    using nat_int_mod [of "sampleRate b" 4294967296] by simp
  have br: "nat (int (sampleRate b) * 2 * int (numberOfChannels b) mod 4294967296)
              = sampleRate b * 2 * numberOfChannels b mod 4294967296"
    using nat_int_mod [of "sampleRate b * 2 * numberOfChannels b" 4294967296] by simp
  have ba: "nat (int (numberOfChannels b) * 2 mod 65536) = numberOfChannels b * 2 mod 65536"
    using nat_int_mod [of "numberOfChannels b * 2" 65536] by simp
  show ?thesis
    by (simp add: write_header_def setUint32_written setUint16_written header_bytes_def
        a c r br ba)
qed

lemma write_header_result:
  "write_header b (m + 44) \<lparr>view = replicate (m + 44) 0, pos = 0\<rparr> =
     Inr \<lparr>view = header_bytes b m @ replicate m 0, pos = 44\<rparr>"
  using write_header_written [of b m] by (simp add: written_def)

lemma header_fields:
  fixes b m
  defines "H \<equiv> header_bytes b m"
  shows "ascii_at H 0 4 = ''RIFF''"
    and "u32_at H 4 = (36 + m) mod 4294967296"
    and "ascii_at H 8 4 = ''WAVE''"
    and "ascii_at H 12 4 = ''fmt ''"
    and "u32_at H 16 = 16"
    and "u16_at H 20 = 1"
    and "u16_at H 22 = numberOfChannels b mod 65536"
    and "u32_at H 24 = sampleRate b mod 4294967296"
    and "u32_at H 28 = sampleRate b * 2 * numberOfChannels b mod 4294967296"
    and "u16_at H 32 = numberOfChannels b * 2 mod 65536"
    and "u16_at H 34 = 16"
    and "ascii_at H 36 4 = ''data''"
    and "u32_at H 40 = nat ((int m - 40) mod 4294967296)"
proof -
  let ?f1 = "le32 0x46464952" and ?f2 = "le32 ((36 + m) mod 4294967296)"
  and ?f3 = "le32 0x45564157" and ?f4 = "le32 0x20746d66" and ?f5 = "le32 16"
  and ?f6 = "le16 1" and ?f7 = "le16 (numberOfChannels b mod 65536)"
  and ?f8 = "le32 (sampleRate b mod 4294967296)"
  and ?f9 = "le32 (sampleRate b * 2 * numberOfChannels b mod 4294967296)"
  and ?f10 = "le16 (numberOfChannels b * 2 mod 65536)" and ?f11 = "le16 16"
  and ?f12 = "le32 0x61746164" and ?f13 = "le32 (nat ((int m - 40) mod 4294967296))"
  have H: "H = ?f1 @ ?f2 @ ?f3 @ ?f4 @ ?f5 @ ?f6 @ ?f7 @ ?f8 @ ?f9 @ ?f10 @ ?f11 @ ?f12 @ ?f13"
    by (simp add: H_def header_bytes_def)
  show "ascii_at H 0 4 = ''RIFF''"
    unfolding H using ascii_at_le32 [of 0 "[]"] by (simp add: chunk_tags)
  show "u32_at H 4 = (36 + m) mod 4294967296"
    unfolding H using u32_at_le32 [of 4 ?f1] by simp
  show "ascii_at H 8 4 = ''WAVE''"
    unfolding H using ascii_at_le32 [of 8 "?f1 @ ?f2"] by (simp add: chunk_tags)
  show "ascii_at H 12 4 = ''fmt ''"
    unfolding H using ascii_at_le32 [of 12 "?f1 @ ?f2 @ ?f3"] by (simp add: chunk_tags)
  show "u32_at H 16 = 16"
    unfolding H using u32_at_le32 [of 16 "?f1 @ ?f2 @ ?f3 @ ?f4"] by simp
  show "u16_at H 20 = 1"
    unfolding H using u16_at_le16 [of 20 "?f1 @ ?f2 @ ?f3 @ ?f4 @ ?f5"] by simp
  show "u16_at H 22 = numberOfChannels b mod 65536"
    unfolding H using u16_at_le16 [of 22 "?f1 @ ?f2 @ ?f3 @ ?f4 @ ?f5 @ ?f6"] by simp
  show "u32_at H 24 = sampleRate b mod 4294967296"
    unfolding H using u32_at_le32 [of 24 "?f1 @ ?f2 @ ?f3 @ ?f4 @ ?f5 @ ?f6 @ ?f7"] by simp
  show "u32_at H 28 = sampleRate b * 2 * numberOfChannels b mod 4294967296"
    unfolding H using u32_at_le32 [of 28 "?f1 @ ?f2 @ ?f3 @ ?f4 @ ?f5 @ ?f6 @ ?f7 @ ?f8"] by simp
  show "u16_at H 32 = numberOfChannels b * 2 mod 65536"
    unfolding H
    using u16_at_le16 [of 32 "?f1 @ ?f2 @ ?f3 @ ?f4 @ ?f5 @ ?f6 @ ?f7 @ ?f8 @ ?f9"] by simp
  show "u16_at H 34 = 16"
    unfolding H
    using u16_at_le16 [of 34 "?f1 @ ?f2 @ ?f3 @ ?f4 @ ?f5 @ ?f6 @ ?f7 @ ?f8 @ ?f9 @ ?f10"]
    by simp
  show "ascii_at H 36 4 = ''data''"
    unfolding H
    using ascii_at_le32 [of 36 "?f1 @ ?f2 @ ?f3 @ ?f4 @ ?f5 @ ?f6 @ ?f7 @ ?f8 @ ?f9 @ ?f10 @ ?f11"]
    by (simp add: chunk_tags)
  have "nat ((int m - 40) mod 4294967296) < 4294967296" by simp
  then show "u32_at H 40 = nat ((int m - 40) mod 4294967296)"
    unfolding H
    using u32_at_le32 [of 40
        "?f1 @ ?f2 @ ?f3 @ ?f4 @ ?f5 @ ?f6 @ ?f7 @ ?f8 @ ?f9 @ ?f10 @ ?f11 @ ?f12" _ "[]"]
    by simp
qed

section \<open>The loops\<close>

lemma collect_channels_eq:
  "collect_channels b i acc = Inr (acc @ drop i (channelData b))"
proof (induction b i acc rule: collect_channels.induct)
  case (1 b i channels)
  show ?case
  proof (cases "i < numberOfChannels b")
    case True
    then have "drop i (channelData b) = channelData b ! i # drop (i + 1) (channelData b)"
      by (simp add: numberOfChannels_def Cons_nth_drop_Suc)
    with True 1 show ?thesis
      by (subst collect_channels.simps) (simp add: getChannelData_def)
  next
    case False
    then show ?thesis
      by (subst collect_channels.simps) (simp add: numberOfChannels_def)
  qed
qed

lemma write_sample_ok:
  assumes "i < length channels" "46 + offset \<le> length v"
  shows "\<exists>v'. write_sample channels i p offset v = Inr v' \<and> length v' = length v
           \<and> take 44 v' = take 44 v"
  using assms
  by (simp add: write_sample_def read_sample_def dv_setInt16_def set_bytes_def)

lemma for_loop_ok:
  "numOfChan \<le> length channels \<Longrightarrow> 44 + offset + 2 * (numOfChan - i) \<le> length v \<Longrightarrow>
   \<exists>v'. for_loop numOfChan channels p i offset v = Inr (offset + 2 * (numOfChan - i), v')
        \<and> length v' = length v \<and> take 44 v' = take 44 v"
proof (induction numOfChan channels p i offset v rule: for_loop.induct)
  case (1 numOfChan channels p i offset v)
  show ?case
  proof (cases "i < numOfChan")
    case True
    with "1.prems" have "i < length channels" "46 + offset \<le> length v" by auto
    from write_sample_ok [OF this, of p] obtain v1 where
      v1: "write_sample channels i p offset v = Inr v1" "length v1 = length v"
          "take 44 v1 = take 44 v" by blast
    from True "1.prems" v1 have "44 + (offset + 2) + 2 * (numOfChan - (i + 1)) \<le> length v1"
      by auto
    from "1.IH" [OF True v1(1) "1.prems"(1) this] obtain v' where
      v': "for_loop numOfChan channels p (i + 1) (offset + 2) v1
             = Inr (offset + 2 + 2 * (numOfChan - (i + 1)), v')"
          "length v' = length v1" "take 44 v' = take 44 v1" by blast
    from True have "offset + 2 + 2 * (numOfChan - (i + 1)) = offset + 2 * (numOfChan - i)"
      by auto
    with True v1 v' show ?thesis
      by (subst for_loop.simps) simp
  next
    case False
    then show ?thesis by (subst for_loop.simps) simp
  qed
qed

lemma while_loop_ok:
  "numOfChan \<le> length channels \<Longrightarrow>
   44 + offset + 2 * numOfChan * (length_frames b - p) \<le> length v \<Longrightarrow>
   \<exists>v'. while_loop b numOfChan channels p offset v = Inr v'
        \<and> length v' = length v \<and> take 44 v' = take 44 v"
proof (induction b numOfChan channels p offset v rule: while_loop.induct)
  case (1 b numOfChan channels p offset v)
  show ?case
  proof (cases "p < length_frames b")
    case True
    then have split: "length_frames b - p = Suc (length_frames b - (p + 1))" by auto
    have fits: "44 + offset + 2 * (numOfChan - 0) \<le> length v"
      using "1.prems"(2) unfolding split by simp
    from for_loop_ok [OF "1.prems"(1) fits, of p] obtain v1 where
      v1: "for_loop numOfChan channels p 0 offset v = Inr (offset + 2 * numOfChan, v1)"
          "length v1 = length v" "take 44 v1 = take 44 v" by auto
    have "44 + (offset + 2 * numOfChan) + 2 * numOfChan * (length_frames b - (p + 1)) \<le> length v1"
      using "1.prems"(2) v1(2) unfolding split by simp
    from "1.IH" [OF True v1(1) refl "1.prems"(1) this] obtain v' where
      "while_loop b numOfChan channels (p + 1) (offset + 2 * numOfChan) v1 = Inr v'"
      "length v' = length v1" "take 44 v' = take 44 v1" by blast
    with True v1 show ?thesis
      by (subst while_loop.simps) simp
  next
    case False
    then show ?thesis by (subst while_loop.simps) simp
  qed
qed

section \<open>The encoder as a whole\<close>

lemma audioBufferToWav_unfold:
  "audioBufferToWav b =
     while_loop b (numberOfChannels b) (channelData b) 44 0
       (header_bytes b (length_frames b * numberOfChannels b * 2)
          @ replicate (length_frames b * numberOfChannels b * 2) 0)"
  using collect_channels_eq [of b 0 "[]"]
  by (simp add: audioBufferToWav_def Let_def write_header_result)

lemma audioBufferToWav_ok:
  "\<exists>out. audioBufferToWav b = Inr out
     \<and> length out = 44 + length_frames b * numberOfChannels b * 2
     \<and> take 44 out = header_bytes b (length_frames b * numberOfChannels b * 2)"
proof -
  let ?C = "numberOfChannels b"
  let ?m = "length_frames b * ?C * 2"
  let ?v = "header_bytes b ?m @ replicate ?m 0"
  have "2 * ?C * (length_frames b - 44) \<le> ?m"
    by (simp add: mult.commute)
  then have "44 + 0 + 2 * ?C * (length_frames b - 44) \<le> length ?v" by simp
  moreover have "?C \<le> length (channelData b)" by (simp add: numberOfChannels_def)
  ultimately obtain v' where
    "while_loop b ?C (channelData b) 44 0 ?v = Inr v'" "length v' = length ?v"
    "take 44 v' = take 44 ?v"
    using while_loop_ok [of ?C "channelData b" 0 b 44 ?v] by blast
  then show ?thesis by (simp add: audioBufferToWav_unfold)
qed

lemma audioBufferToWav_short:
  "length_frames b \<le> 44 \<Longrightarrow>
   audioBufferToWav b = Inr (header_bytes b (length_frames b * numberOfChannels b * 2)
          @ replicate (length_frames b * numberOfChannels b * 2) 0)"
  by (simp add: audioBufferToWav_unfold while_loop.simps)

text \<open>
  The frame loop starts at the cursor the header left, 44: in a mono buffer of 45
  frames the only sample written is the one of frame 44, and it lands at bytes 44
  and 45, where frame 0 belongs.
\<close>

lemma frame_44_is_written_first:
  assumes "length_frames b = 45" "channelData b = [c]" "length c = 45" "c ! 44 = Fin s"
  shows "\<exists>out. audioBufferToWav b = Inr out \<and> length out = 134
     \<and> s16_at out 44 = quantize_law s"
proof -
  let ?v = "header_bytes b 90 @ replicate 90 0"
  have C: "numberOfChannels b = 1" using assms by (simp add: numberOfChannels_def)
  have "\<exists>v'. write_sample [c] 0 44 0 ?v = Inr v' \<and> s16_at v' (44 + 0) = quantize_law s"
    using assms by (intro write_sample_Fin) simp_all
  then obtain v' where v': "write_sample [c] 0 44 0 ?v = Inr v'" "s16_at v' 44 = quantize_law s"
    by auto
  from write_sample_ok [of 0 "[c]" 0 ?v 44] v' have len: "length v' = 134" by simp
  have "audioBufferToWav b = Inr v'"
    using assms C v'(1)
    by (simp add: audioBufferToWav_unfold while_loop.simps [of b _ _ 44]
        while_loop.simps [of b _ _ 45] for_loop.simps [of _ _ _ 0]
        for_loop.simps [of _ _ _ "Suc 0"])
  with len v'(2) show ?thesis by simp
qed

lemma audioBufferToWav_header:
  "\<exists>out. audioBufferToWav b = Inr out
     \<and> length out = 44 + length_frames b * numberOfChannels b * 2
     \<and> ascii_at out 0 4 = ''RIFF''
     \<and> u32_at out 4 = (36 + length_frames b * numberOfChannels b * 2) mod 4294967296
     \<and> ascii_at out 8 4 = ''WAVE''
     \<and> ascii_at out 12 4 = ''fmt ''
     \<and> u32_at out 16 = 16
     \<and> u16_at out 20 = 1
     \<and> u16_at out 22 = numberOfChannels b mod 65536
     \<and> u32_at out 24 = sampleRate b mod 4294967296
     \<and> u32_at out 28 = sampleRate b * 2 * numberOfChannels b mod 4294967296
     \<and> u16_at out 32 = numberOfChannels b * 2 mod 65536
     \<and> u16_at out 34 = 16
     \<and> ascii_at out 36 4 = ''data''
     \<and> u32_at out 40
         = nat ((int (length_frames b * numberOfChannels b * 2) - 40) mod 4294967296)"
proof -
  let ?m = "length_frames b * numberOfChannels b * 2"
  from audioBufferToWav_ok [of b] obtain out where
    out: "audioBufferToWav b = Inr out" "length out = 44 + ?m"
      "take 44 out = header_bytes b ?m" by blast
  have a: "ascii_at out k 4 = ascii_at (header_bytes b ?m) k 4" if "k + 4 \<le> 44" for k
    using ascii_at_take [OF that, of out] out(3) by simp
  have w: "u32_at out k = u32_at (header_bytes b ?m) k" if "k + 4 \<le> 44" for k
    using u32_at_take [OF that, of out] out(3) by simp
  have h: "u16_at out k = u16_at (header_bytes b ?m) k" if "k + 2 \<le> 44" for k
    using u16_at_take [OF that, of out] out(3) by simp
  show ?thesis
    using out(1,2) by (simp add: a w h header_fields)
qed

lemma roundtrip_eval: "audioBufferToWav roundtrip_buffer = Inr roundtrip_bytes"
proof -
  have n: "length_frames roundtrip_buffer \<le> 44"
    and m: "length_frames roundtrip_buffer * numberOfChannels roundtrip_buffer * 2 = 8"
    by (simp_all add: roundtrip_buffer_def numberOfChannels_def)
  have z: "replicate 8 (0::nat) = [0, 0, 0, 0, 0, 0, 0, 0]"
    by (simp add: numeral_eq_Suc)
  have h: "header_bytes roundtrip_buffer 8 = take 44 roundtrip_bytes"
    by (simp add: header_bytes_def le32_def le16_def roundtrip_buffer_def numberOfChannels_def
        roundtrip_bytes_def)
  from audioBufferToWav_short [OF n] show ?thesis
    unfolding m h z by (simp add: roundtrip_bytes_def)
qed


section \<open>Claims about the WAV encoder\<close>

text \<open>
  C5. For every AudioBuffer with \<open>N\<close> frames and \<open>C\<close> channels the encoder returns, and
  what it returns is a sequence of exactly \<open>44 + N * C * 2\<close> bytes. The conditions of
  the claim (at least one channel, a positive rate, channels of equal length) are not
  needed: the result holds for every buffer.
\<close>

theorem wav_length:
  "\<exists>out. audioBufferToWav b = Inr out
     \<and> length out = 44 + length_frames b * numberOfChannels b * 2"
  using audioBufferToWav_ok [of b] by blast

theorem wav_length_witness:
  "\<exists>out. audioBufferToWav one_second_silence = Inr out \<and> length out = 48044"
  using wav_length [of one_second_silence]
  by (simp add: one_second_silence_def numberOfChannels_def)

text \<open>
  C6. For every AudioBuffer with \<open>C\<close> channels and sample rate \<open>R\<close> the output starts
  with "RIFF", the total length minus 8, "WAVE", "fmt ", 16, 1, \<open>C\<close>, \<open>R\<close>, \<open>R * 2 * C\<close>,
  \<open>2 * C\<close> and 16 in the byte positions of the claim, each number little-endian in
  its 16 or 32 bits. A field of 16 or 32 bits holds its value modulo \<open>2^16\<close> or \<open>2^32\<close>;
  whenever the values fit their fields, as those of every buffer a browser builds do,
  the fields read back as the values themselves.
\<close>

theorem wav_header_layout:
  "\<exists>out. audioBufferToWav b = Inr out
     \<and> ascii_at out 0 4 = ''RIFF''
     \<and> u32_at out 4 = (length out - 8) mod 4294967296
     \<and> ascii_at out 8 4 = ''WAVE''
     \<and> ascii_at out 12 4 = ''fmt ''
     \<and> u32_at out 16 = 16
     \<and> u16_at out 20 = 1
     \<and> u16_at out 22 = numberOfChannels b mod 65536
     \<and> u32_at out 24 = sampleRate b mod 4294967296
     \<and> u32_at out 28 = sampleRate b * 2 * numberOfChannels b mod 4294967296
     \<and> u16_at out 32 = 2 * numberOfChannels b mod 65536
     \<and> u16_at out 34 = 16
     \<and> (2 * numberOfChannels b < 65536 \<and> sampleRate b < 4294967296
          \<and> sampleRate b * 2 * numberOfChannels b < 4294967296
          \<and> length out - 8 < 4294967296
        \<longrightarrow> u32_at out 4 = length out - 8
          \<and> u16_at out 22 = numberOfChannels b
          \<and> u32_at out 24 = sampleRate b
          \<and> u32_at out 28 = sampleRate b * 2 * numberOfChannels b
          \<and> u16_at out 32 = 2 * numberOfChannels b)"
proof -
  from audioBufferToWav_header [of b] obtain out where
    out: "audioBufferToWav b = Inr out"
      "length out = 44 + length_frames b * numberOfChannels b * 2"
    and fields: "ascii_at out 0 4 = ''RIFF''"
      "u32_at out 4 = (36 + length_frames b * numberOfChannels b * 2) mod 4294967296"
      "ascii_at out 8 4 = ''WAVE''" "ascii_at out 12 4 = ''fmt ''"
      "u32_at out 16 = 16" "u16_at out 20 = 1"
      "u16_at out 22 = numberOfChannels b mod 65536"
      "u32_at out 24 = sampleRate b mod 4294967296"
      "u32_at out 28 = sampleRate b * 2 * numberOfChannels b mod 4294967296"
      "u16_at out 32 = numberOfChannels b * 2 mod 65536" "u16_at out 34 = 16"
    by blast
  from out(2) have len: "length out - 8 = 36 + length_frames b * numberOfChannels b * 2"
    by simp
  have modular: "u32_at out 4 = (length out - 8) mod 4294967296"
    "u16_at out 32 = 2 * numberOfChannels b mod 65536"
    using fields(2,10) len by (simp_all add: mult.commute)
  have exact: "u32_at out 4 = length out - 8 \<and> u16_at out 22 = numberOfChannels b
      \<and> u32_at out 24 = sampleRate b
      \<and> u32_at out 28 = sampleRate b * 2 * numberOfChannels b
      \<and> u16_at out 32 = 2 * numberOfChannels b"
    if "2 * numberOfChannels b < 65536" "sampleRate b < 4294967296"
      "sampleRate b * 2 * numberOfChannels b < 4294967296" "length out - 8 < 4294967296"
    using that modular fields(7,8,9) by simp
  from out(1) fields(1,3,4,5,6,7,8,9,11) modular exact show ?thesis by blast
qed

theorem wav_header_layout_witness:
  "\<exists>out. audioBufferToWav one_second_silence = Inr out
     \<and> length out - 8 = 48036
     \<and> ascii_at out 0 4 = ''RIFF'' \<and> u32_at out 4 = 48036
     \<and> ascii_at out 8 4 = ''WAVE'' \<and> ascii_at out 12 4 = ''fmt ''
     \<and> u32_at out 16 = 16 \<and> u16_at out 20 = 1 \<and> u16_at out 22 = 1
     \<and> u32_at out 24 = 24000 \<and> u32_at out 28 = 48000 \<and> u16_at out 32 = 2
     \<and> u16_at out 34 = 16"
proof -
  from audioBufferToWav_ok [of one_second_silence] obtain out0 where
    "audioBufferToWav one_second_silence = Inr out0" "length out0 = 48044"
    by (auto simp: one_second_silence_def numberOfChannels_def)
  with wav_header_layout [of one_second_silence] show ?thesis
    by (auto simp: one_second_silence_def numberOfChannels_def)
qed

text \<open>
  C2. The claim: bytes 36 to 39 are "data" and bytes 40 to 43 hold \<open>N * C * 2\<close>. The
  tag is there, but the size is computed as \<open>length - pos - 44\<close> when \<open>pos\<close> is 40, so
  the field holds \<open>N * C * 2 - 40\<close> modulo \<open>2^32\<close>. For one second of mono silence at
  24 kHz the data takes 48000 bytes and the field says 47960.
\<close>

theorem data_chunk_size_one_second:
  "\<exists>out. audioBufferToWav one_second_silence = Inr out
     \<and> length out - 44 = 48000
     \<and> ascii_at out 36 4 = ''data''
     \<and> u32_at out 40 = 47960"
  using audioBufferToWav_header [of one_second_silence]
  by (auto simp: one_second_silence_def numberOfChannels_def)

text \<open>
  C1 as the specification states it fails: the code multiplies by 32768 when
  \<open>0.5 + sample < 0\<close>, that is below \<open>-1/2\<close>, not below 0. At \<open>-1/2\<close> the code
  emits \<open>-16383\<close> (bytes 1 and 192), where the rule of the claim gives \<open>-16384\<close>.
\<close>

theorem quantization_spec_counterexample:
  "quantize (Fin (- (1 / 2))) = - 16383
   \<and> quantize_spec (- (1 / 2)) = - 16384
   \<and> write_sample [[Fin (- (1 / 2))]] 0 0 0 (replicate 46 0) = Inr (replicate 44 0 @ [1, 192])
   \<and> s16_at (replicate 44 0 @ [1, 192]) 44 = - 16383"
  by (simp add: write_sample_def read_sample_def dv_setInt16_def set_bytes_def le16_def
      quantize_def trunc_def wrap_int32_def quantize_spec_def clamp_unit_def toward_zero_def
      ceiling_def floor_numeral_div_rat floor_neg_numeral_div_rat s16_at_def u16_at_def
      nth_append)

text \<open>
  C1, amended. Every 16-bit value the encoder emits for a finite sample \<open>s\<close> is
  obtained by clamping \<open>s\<close> to \<open>[-1, 1]\<close>, multiplying by 32768 if the clamped value is
  below \<open>-1/2\<close> and by 32767 otherwise, and truncating toward zero; the two bytes
  written at \<open>44 + offset\<close> read back as that number, so neither ToInt32 nor the
  16-bit store wraps.
\<close>

theorem quantization_of_emitted_sample:
  assumes "i < length channels" "p < length (channels ! i)" "channels ! i ! p = Fin s"
    and "46 + offset \<le> length v"
  shows "\<exists>v'. write_sample channels i p offset v = Inr v'
           \<and> s16_at v' (44 + offset)
               = toward_zero (if clamp_unit s < - (1 / 2) then clamp_unit s * 32768
                              else clamp_unit s * 32767)"
  using write_sample_Fin [OF assms] by (simp add: quantize_law_def Let_def)

theorem quantization_of_emitted_sample_witness:
  "\<exists>v'. write_sample [[Fin (- (3 / 4))]] 0 0 0 (replicate 46 0) = Inr v'
         \<and> s16_at v' 44 = - 24576"
proof -
  have "(0::nat) < length [[Fin (- (3 / 4))]]" "0 < length ([[Fin (- (3 / 4))]] ! 0)"
    "[[Fin (- (3 / 4))]] ! 0 ! 0 = Fin (- (3 / 4))" "46 + 0 \<le> length (replicate 46 (0::nat))"
    by simp_all
  from quantization_of_emitted_sample [OF this] show ?thesis
    by (simp add: clamp_unit_def toward_zero_def)
qed

text \<open>
  C3 as the specification states it fails. The loop over the frames counts with the
  cursor \<open>pos\<close>, which the header writes have left at 44, so a buffer of 4 frames is
  never read and bytes 44 to 51 stay zero: they decode to 0, 0, 0, 0 and not to
  0, 16383, -16384, 32767.
\<close>

theorem roundtrip_samples_counterexample:
  "audioBufferToWav roundtrip_buffer = Inr roundtrip_bytes
   \<and> s16_at roundtrip_bytes 44 = 0 \<and> s16_at roundtrip_bytes 46 = 0
   \<and> s16_at roundtrip_bytes 48 = 0 \<and> s16_at roundtrip_bytes 50 = 0"
  using roundtrip_eval by (simp add: roundtrip_bytes_def s16_at_def u16_at_def)

text \<open>
  C3, amended. Encoding the 1-channel, 4-frame buffer with samples 0.0, 0.5, -0.5, 1.0
  at 24000 Hz yields exactly 52 bytes, and the encoder's quantiser maps the four
  samples to 0, 16383, -16383 and 32767. What bytes 44 to 51 hold is left open.
\<close>

theorem roundtrip_length_and_quantized:
  "audioBufferToWav roundtrip_buffer = Inr roundtrip_bytes
   \<and> length roundtrip_bytes = 52
   \<and> map quantize (channelData roundtrip_buffer ! 0) = [0, 16383, - 16383, 32767]"
  using roundtrip_eval
  by (simp add: roundtrip_bytes_def roundtrip_buffer_def quantize_def trunc_def wrap_int32_def
      ceiling_def floor_numeral_div_rat floor_neg_numeral_div_rat)


section \<open>Speech generation and the controllers\<close>

lemmas rv_defs = handlePlayTTS_def handleStopTTS_def rv_play_or_generate_def rv_start_audio_def
  handlePlayTTS_resumed_def rv_onended_def rv_onerror_def cache_get_def cache_put_def

lemmas av_defs = av_handlePlayTTS_def av_handlePlayTTS_resumed_def av_play_new_def av_onended_def
  cache_get_def cache_put_def

lemmas example_defs = res_a_def res_b_def ann_a_def ann_b_def ok_response_def
  no_audio_response_def silent_host_def speaking_host_def rv_init_def av_init_def rv_run_def
  av_run_def truthy_def

lemma generateTTS_result:
  "\<exists>r. generateTTS h text = Inr r \<and>
     ((\<exists>u. audioUrl r = Some u \<and> error r = None)
      \<or> (\<exists>m. audioUrl r = None \<and> error r = Some m \<and> m \<noteq> []))"
  by (auto simp: generateTTS_def generateTTS_try_def generateTTS_catch_def split: sum.splits)

lemma generateTTS_no_audio:
  "generateContent h text = Inr None \<Longrightarrow>
   generateTTS h text = Inr \<lparr>audioUrl = None, error = Some ''No audio data returned''\<rparr>"
  by (simp add: generateTTS_def generateTTS_try_def generateTTS_catch_def truthy_def)

lemma generateTTS_thrown_by_call:
  "generateContent h text = Inl e \<Longrightarrow> generateTTS h text = Inr (failure_response e)"
  by (simp add: generateTTS_def generateTTS_try_def generateTTS_catch_def failure_response_def)

lemma generateTTS_empty_audio:
  "generateContent h text = Inr (Some []) \<Longrightarrow>
   generateTTS h text = Inr \<lparr>audioUrl = None, error = Some ''No audio data returned''\<rparr>"
  by (simp add: generateTTS_def generateTTS_try_def generateTTS_catch_def truthy_def)

lemma generateTTS_thrown_by_context:
  "generateContent h text = Inr (Some a) \<Longrightarrow> a \<noteq> [] \<Longrightarrow> newAudioContext h = Inl e \<Longrightarrow>
   generateTTS h text = Inr (failure_response e)"
  by (simp add: generateTTS_def generateTTS_try_def generateTTS_catch_def failure_response_def
      truthy_def)

lemma generateTTS_thrown_by_decode:
  "generateContent h text = Inr (Some a) \<Longrightarrow> a \<noteq> [] \<Longrightarrow> newAudioContext h = Inr u \<Longrightarrow>
   decodeAudioData h a = Inl e \<Longrightarrow> generateTTS h text = Inr (failure_response e)"
  by (simp add: generateTTS_def generateTTS_try_def generateTTS_catch_def failure_response_def
      truthy_def)

lemma generateTTS_thrown_by_url:
  "generateContent h text = Inr (Some a) \<Longrightarrow> a \<noteq> [] \<Longrightarrow> newAudioContext h = Inr u \<Longrightarrow>
   decodeAudioData h a = Inr buf \<Longrightarrow> audioBufferToWav buf = Inr wav \<Longrightarrow>
   createObjectURL h wav = Inl e \<Longrightarrow> generateTTS h text = Inr (failure_response e)"
  by (simp add: generateTTS_def generateTTS_try_def generateTTS_catch_def failure_response_def
      truthy_def)

lemma generateTTS_success:
  "generateContent h text = Inr (Some a) \<Longrightarrow> a \<noteq> [] \<Longrightarrow> newAudioContext h = Inr u \<Longrightarrow>
   decodeAudioData h a = Inr buf \<Longrightarrow> audioBufferToWav buf = Inr wav \<Longrightarrow>
   createObjectURL h wav = Inr url \<Longrightarrow>
   generateTTS h text = Inr \<lparr>audioUrl = Some url, error = None\<rparr>"
  by (simp add: generateTTS_def generateTTS_try_def truthy_def)

lemma rv_inv_init: "rv_inv rv_init"
  by (simp add: rv_inv_def rv_init_def)

lemma rv_inv_click:
  assumes "rv_inv s" "pending s = []"
  shows "rv_inv (handlePlayTTS s r)"
  using assms
  by (auto simp: rv_inv_def rv_defs split: option.splits)

lemma rv_inv_resolved:
  assumes "rv_inv s" "ident \<in> set (pending s)"
  shows "rv_inv (handlePlayTTS_resumed s ident resp)"
proof -
  from assms have p: "pending s = [ident]"
    by (cases "pending s") (auto simp: rv_inv_def)
  with assms show ?thesis
    by (auto simp: rv_inv_def rv_defs Let_def)
qed

lemma rv_inv_stopped:
  assumes "rv_inv s" "a \<in> sounding s"
  shows "rv_inv (rv_onended s a)" "rv_inv (rv_onerror s a)"
  using assms by (cases "currentAudioRef s"; auto simp: rv_inv_def rv_defs)+

lemma rv_inv_back: "rv_inv s \<Longrightarrow> rv_inv (handleBack s)"
  by (auto simp: rv_inv_def handleBack_def split: option.splits)

lemma rv_inv_step: "rv_inv s \<Longrightarrow> rv_event_ok s e \<Longrightarrow> rv_inv (rv_step s e)"
  by (cases e) (simp_all add: rv_inv_click rv_inv_resolved rv_inv_stopped rv_inv_back)

lemma rv_inv_run: "rv_inv s \<Longrightarrow> rv_sequential s es \<Longrightarrow> rv_inv (rv_run s es)"
proof (induction es arbitrary: s)
  case Nil
  then show ?case by (simp add: rv_run_def)
next
  case (Cons e es)
  from Cons.prems have "rv_inv (rv_step s e)" "rv_sequential (rv_step s e) es"
    by (simp_all add: rv_inv_step)
  from Cons.IH [OF this] show ?case by (simp add: rv_run_def)
qed





lemma rv_gen_inv_init: "rv_gen_inv rv_init"
  by (simp add: rv_gen_inv_def rv_init_def)

lemma rv_gen_inv_step:
  assumes "rv_inv s" "rv_gen_inv s" "rv_event_ok s e"
  shows "rv_gen_inv (rv_step s e)"
proof (cases e)
  case (Click r)
  with assms show ?thesis
    by (auto simp: rv_gen_inv_def rv_defs split: option.splits)
next
  case (Resolved ident resp)
  with assms have "pending s = [ident]"
    by (cases "pending s") (auto simp: rv_inv_def)
  with assms Resolved show ?thesis
    by (auto simp: rv_gen_inv_def rv_defs Let_def)
next
  case (Ended a)
  with assms show ?thesis by (auto simp: rv_gen_inv_def rv_defs)
next
  case (Errored a)
  with assms show ?thesis by (auto simp: rv_gen_inv_def rv_defs)
next
  case Back
  with assms show ?thesis
    by (auto simp: rv_gen_inv_def handleBack_def split: option.splits)
qed

lemma rv_gen_inv_run:
  "rv_inv s \<Longrightarrow> rv_gen_inv s \<Longrightarrow> rv_sequential s es \<Longrightarrow> rv_gen_inv (rv_run s es)"
proof (induction es arbitrary: s)
  case Nil
  then show ?case by (simp add: rv_run_def)
next
  case (Cons e es)
  from Cons.prems have "rv_inv (rv_step s e)" "rv_gen_inv (rv_step s e)"
    "rv_sequential (rv_step s e) es"
    by (simp_all add: rv_inv_step rv_gen_inv_step)
  from Cons.IH [OF this] show ?case by (simp add: rv_run_def)
qed

lemma sequential_generating_not_playing:
  assumes "rv_sequential rv_init es" "rv_phase (rv_run rv_init es) = Generating ident"
  shows "playingResourceId (rv_run rv_init es) = None"
proof -
  let ?s = "rv_run rv_init es"
  have inv: "rv_inv ?s" using rv_inv_init assms(1) by (rule rv_inv_run)
  have gen: "rv_gen_inv ?s" using rv_inv_init rv_gen_inv_init assms(1) by (rule rv_gen_inv_run)
  from assms(2) have "generatingAudioId ?s \<noteq> None"
    by (auto simp: rv_phase_def split: option.splits)
  with gen have "pending ?s \<noteq> []" by (simp add: rv_gen_inv_def)
  with inv have "currentAudioRef ?s = None" by (simp add: rv_inv_def)
  with gen show ?thesis by (simp add: rv_gen_inv_def)
qed


section \<open>Claims about speech generation and playback\<close>

text \<open>
  C10. For every input text and whatever the collaborators do, \<open>generateTTS\<close> does not
  throw: it resolves to a response with exactly one of \<open>audioUrl\<close> and \<open>error\<close>. It
  carries \<open>audioUrl\<close>, the URL made for the encoded buffer, exactly when the external
  call returns audio data and the audio context, the decoding and the URL creation
  all succeed; when the external call returns no audio data the error is "No audio
  data returned"; and when any step throws, the error is the message thrown or, if
  that is empty, "Failed to generate speech", so it is never empty. The encoder
  itself returns for every decoded buffer. Every exception is taken to be an object
  with a message, as the platform's and the client library's are.
\<close>

theorem generateTTS_never_throws:
  "(\<exists>r. generateTTS h text = Inr r \<and>
     ((\<exists>u. audioUrl r = Some u \<and> error r = None)
      \<or> (\<exists>m. audioUrl r = None \<and> error r = Some m \<and> m \<noteq> [])))
   \<and> (\<forall>e. generateContent h text = Inl e \<longrightarrow>
          generateTTS h text = Inr (failure_response e))
   \<and> (generateContent h text = Inr None \<or> generateContent h text = Inr (Some []) \<longrightarrow>
        generateTTS h text = Inr \<lparr>audioUrl = None, error = Some ''No audio data returned''\<rparr>)
   \<and> (\<forall>a. generateContent h text = Inr (Some a) \<and> a \<noteq> [] \<longrightarrow>
        (\<forall>e. newAudioContext h = Inl e \<longrightarrow> generateTTS h text = Inr (failure_response e))
        \<and> (\<forall>u. newAudioContext h = Inr u \<longrightarrow>
             (\<forall>e. decodeAudioData h a = Inl e \<longrightarrow>
                   generateTTS h text = Inr (failure_response e))
             \<and> (\<forall>buf. decodeAudioData h a = Inr buf \<longrightarrow>
                  (\<exists>wav. audioBufferToWav buf = Inr wav
                     \<and> (\<forall>e. createObjectURL h wav = Inl e \<longrightarrow>
                           generateTTS h text = Inr (failure_response e))
                     \<and> (\<forall>url. createObjectURL h wav = Inr url \<longrightarrow>
                           generateTTS h text = Inr \<lparr>audioUrl = Some url, error = None\<rparr>)))))
   \<and> (\<forall>e. audioUrl (failure_response e) = None
          \<and> (\<exists>m. error (failure_response e) = Some m \<and> m \<noteq> []
                \<and> (message e \<noteq> [] \<longrightarrow> m = message e)
                \<and> (message e = [] \<longrightarrow> m = ''Failed to generate speech'')))"
proof -
  have wav: "\<exists>wav. audioBufferToWav buf = Inr wav
       \<and> (\<forall>e. createObjectURL h wav = Inl e \<longrightarrow> generateTTS h text = Inr (failure_response e))
       \<and> (\<forall>url. createObjectURL h wav = Inr url \<longrightarrow>
             generateTTS h text = Inr \<lparr>audioUrl = Some url, error = None\<rparr>)"
    if "generateContent h text = Inr (Some a)" "a \<noteq> []" "newAudioContext h = Inr u"
      "decodeAudioData h a = Inr buf" for a u buf
  proof -
    from audioBufferToWav_ok [of buf] obtain wav where w: "audioBufferToWav buf = Inr wav"
      by blast
    with that generateTTS_thrown_by_url [of h "text" a u buf wav]
      generateTTS_success [of h "text" a u buf wav]
    show ?thesis by blast
  qed
  have resp: "audioUrl (failure_response e) = None
      \<and> (\<exists>m. error (failure_response e) = Some m \<and> m \<noteq> []
            \<and> (message e \<noteq> [] \<longrightarrow> m = message e)
            \<and> (message e = [] \<longrightarrow> m = ''Failed to generate speech''))" for e
    by (simp add: failure_response_def)
  show ?thesis
    using generateTTS_result [of h "text"] generateTTS_thrown_by_call [of h "text"]
      generateTTS_no_audio [of h "text"] generateTTS_empty_audio [of h "text"]
      generateTTS_thrown_by_context [of h "text"] generateTTS_thrown_by_decode [of h "text"]
      wav resp
    by blast
qed

theorem generateTTS_never_throws_witness:
  "generateContent silent_host ''Krebs cycle'' = Inr None
   \<and> generateTTS silent_host ''Krebs cycle'' = Inr no_audio_response
   \<and> generateContent speaking_host ''Krebs cycle'' = Inr (Some ''AAAA'')
   \<and> newAudioContext speaking_host = Inr ()
   \<and> decodeAudioData speaking_host ''AAAA'' = Inr roundtrip_buffer
   \<and> audioBufferToWav roundtrip_buffer = Inr roundtrip_bytes
   \<and> createObjectURL speaking_host roundtrip_bytes = Inr ''blob:0''
   \<and> generateTTS speaking_host ''Krebs cycle'' = Inr (ok_response ''blob:0'')"
proof -
  have silent: "generateContent silent_host ''Krebs cycle'' = Inr None"
    by (simp add: silent_host_def)
  have speaking: "generateContent speaking_host ''Krebs cycle'' = Inr (Some ''AAAA'')"
    "''AAAA'' \<noteq> []" "newAudioContext speaking_host = Inr ()"
    "decodeAudioData speaking_host ''AAAA'' = Inr roundtrip_buffer"
    "createObjectURL speaking_host roundtrip_bytes = Inr ''blob:0''"
    by (simp_all add: speaking_host_def)
  from generateTTS_never_throws [of silent_host "''Krebs cycle''"] silent
  have 1: "generateTTS silent_host ''Krebs cycle'' = Inr no_audio_response"
    by (simp add: no_audio_response_def)
  from generateTTS_never_throws [of speaking_host "''Krebs cycle''"] speaking(1,2,3,4)
  obtain wav where w: "audioBufferToWav roundtrip_buffer = Inr wav"
    "\<forall>url. createObjectURL speaking_host wav = Inr url \<longrightarrow>
       generateTTS speaking_host ''Krebs cycle'' = Inr \<lparr>audioUrl = Some url, error = None\<rparr>"
    by blast
  from w(1) roundtrip_eval have "wav = roundtrip_bytes" by simp
  with w(2) speaking(5)
  have 2: "generateTTS speaking_host ''Krebs cycle'' = Inr (ok_response ''blob:0'')"
    by (simp add: ok_response_def)
  from silent speaking roundtrip_eval 1 2 show ?thesis by simp
qed

text \<open>
  C9 as the specification states it fails on the resource surface. While the audio of
  \<open>r1\<close> is being generated, a click on \<open>r2\<close>, whose audio is cached, starts a stream; by
  \<open>rv_phase\<close> the controller is still \<open>Generating r1\<close>. When that generation then fails,
  the controller is left \<open>Playing r2\<close> with the stream sounding, not \<open>Idle\<close>.
\<close>

theorem generation_failure_not_idle_counterexample:
  "generateTTS silent_host ''Krebs cycle'' = Inr no_audio_response
   \<and> rv_phase (rv_run rv_init [Click res_b, Resolved ''r2'' (ok_response ''blob:2''),
        Click res_a, Click res_b]) = Generating ''r1''
   \<and> rv_phase (rv_run rv_init [Click res_b, Resolved ''r2'' (ok_response ''blob:2''),
        Click res_a, Click res_b, Resolved ''r1'' no_audio_response]) = Playing ''r2''
   \<and> sounding (rv_run rv_init [Click res_b, Resolved ''r2'' (ok_response ''blob:2''),
        Click res_a, Click res_b, Resolved ''r1'' no_audio_response]) = {1}"
proof -
  have "generateTTS silent_host ''Krebs cycle'' = Inr no_audio_response"
    by (simp add: generateTTS_no_audio silent_host_def no_audio_response_def)
  then show ?thesis
    by (auto simp: rv_phase_def rv_defs example_defs Let_def)
qed

text \<open>
  C9, amended. When speech generation for an identifier fails (\<open>generateTTS\<close> resolves
  without an \<open>audioUrl\<close>), the controller of either view shows the alert "TTS Error: "
  followed by the non-empty message, issues no further call of \<open>generateTTS\<close>, leaves
  the cache and the sounding elements as they were, and every play button is enabled.
  On the announcement surface the controller becomes \<open>Idle\<close>. On the resource surface
  it leaves \<open>Generating(id)\<close> for \<open>Idle\<close> provided no stream is playing at that moment,
  as is the case in every run in which no request is made while a generation call is
  in flight; a stream that is playing goes on, and the controller is then \<open>Playing\<close>
  its identifier.
\<close>

theorem generation_failure_leaves_generating:
  assumes "generateTTS h text = Inr resp" "audioUrl resp = None"
    and "rv_phase s = Generating ident"
    and "av_phase t = Playing aid"
  shows "(\<exists>m. m \<noteq> [] \<and> error resp = Some m
          \<and> alerts (handlePlayTTS_resumed s ident resp) = alerts s @ [''TTS Error: '' @ m]
          \<and> alerts (av_handlePlayTTS_resumed t aid resp) = alerts t @ [''TTS Error: '' @ m])
     \<and> (playingResourceId s = None \<longrightarrow> rv_phase (handlePlayTTS_resumed s ident resp) = Idle)
     \<and> av_phase (av_handlePlayTTS_resumed t aid resp) = Idle
     \<and> (\<forall>es. rv_sequential rv_init es \<and> s = rv_run rv_init es
           \<longrightarrow> rv_phase (handlePlayTTS_resumed s ident resp) = Idle)
     \<and> (\<forall>p. playingResourceId s = Some p
           \<longrightarrow> rv_phase (handlePlayTTS_resumed s ident resp) = Playing p)
     \<and> audioCache (handlePlayTTS_resumed s ident resp) = audioCache s
     \<and> requests (handlePlayTTS_resumed s ident resp) = requests s
     \<and> sounding (handlePlayTTS_resumed s ident resp) = sounding s
     \<and> (\<forall>j. rv_button_enabled (handlePlayTTS_resumed s ident resp) j)
     \<and> audioMap (av_handlePlayTTS_resumed t aid resp) = audioMap t
     \<and> requests (av_handlePlayTTS_resumed t aid resp) = requests t
     \<and> sounding (av_handlePlayTTS_resumed t aid resp) = sounding t
     \<and> (\<forall>j. av_button_enabled (av_handlePlayTTS_resumed t aid resp) j)"
proof -
  from generateTTS_result [of h "text"] assms(1,2) obtain m where
    m: "error resp = Some m" "m \<noteq> []" by auto
  have nt: "\<not> truthy (audioUrl resp)" using assms(2) by (simp add: truthy_def)
  have idle: "rv_phase (handlePlayTTS_resumed s ident resp) = Idle"
    if "playingResourceId s = None"
    using nt that by (simp add: handlePlayTTS_resumed_def Let_def rv_phase_def)
  have seq: "rv_phase (handlePlayTTS_resumed s ident resp) = Idle"
    if run: "rv_sequential rv_init es \<and> s = rv_run rv_init es" for es
  proof -
    from run have r: "rv_sequential rv_init es" and eq: "s = rv_run rv_init es"
      by (rule conjunct1, rule conjunct2)
    from assms(3) have "rv_phase (rv_run rv_init es) = Generating ident"
      unfolding eq .
    with r have "playingResourceId (rv_run rv_init es) = None"
      by (rule sequential_generating_not_playing)
    then have "playingResourceId s = None" unfolding eq .
    then show ?thesis by (rule idle)
  qed
  have playing: "rv_phase (handlePlayTTS_resumed s ident resp) = Playing p"
    if "playingResourceId s = Some p" for p
    using nt that by (simp add: handlePlayTTS_resumed_def Let_def rv_phase_def)
  have rv: "alerts (handlePlayTTS_resumed s ident resp) = alerts s @ [''TTS Error: '' @ m]"
    "audioCache (handlePlayTTS_resumed s ident resp) = audioCache s"
    "requests (handlePlayTTS_resumed s ident resp) = requests s"
    "sounding (handlePlayTTS_resumed s ident resp) = sounding s"
    "rv_button_enabled (handlePlayTTS_resumed s ident resp) j" for j
    using nt m
    by (simp_all add: handlePlayTTS_resumed_def Let_def rv_button_enabled_def)
  have av: "av_phase (av_handlePlayTTS_resumed t aid resp) = Idle"
    "alerts (av_handlePlayTTS_resumed t aid resp) = alerts t @ [''TTS Error: '' @ m]"
    "audioMap (av_handlePlayTTS_resumed t aid resp) = audioMap t"
    "requests (av_handlePlayTTS_resumed t aid resp) = requests t"
    "sounding (av_handlePlayTTS_resumed t aid resp) = sounding t"
    "av_button_enabled (av_handlePlayTTS_resumed t aid resp) j" for j
    using nt m
    by (simp_all add: av_handlePlayTTS_resumed_def Let_def av_phase_def av_button_enabled_def)
  have M: "\<exists>m. m \<noteq> [] \<and> error resp = Some m
      \<and> alerts (handlePlayTTS_resumed s ident resp) = alerts s @ [''TTS Error: '' @ m]
      \<and> alerts (av_handlePlayTTS_resumed t aid resp) = alerts t @ [''TTS Error: '' @ m]"
    using m(2) m(1) rv(1) av(2) by (intro exI [of _ m] conjI)
  have B: "playingResourceId s = None \<longrightarrow> rv_phase (handlePlayTTS_resumed s ident resp) = Idle"
    by (rule impI, rule idle, assumption)
  have A: "\<forall>es. rv_sequential rv_init es \<and> s = rv_run rv_init es
           \<longrightarrow> rv_phase (handlePlayTTS_resumed s ident resp) = Idle"
    by (intro allI impI, rule seq, assumption)
  have C: "\<forall>p. playingResourceId s = Some p
           \<longrightarrow> rv_phase (handlePlayTTS_resumed s ident resp) = Playing p"
    by (intro allI impI, rule playing, assumption)
  have D: "\<forall>j. rv_button_enabled (handlePlayTTS_resumed s ident resp) j"
    by (rule allI, rule rv(5))
  have E: "\<forall>j. av_button_enabled (av_handlePlayTTS_resumed t aid resp) j"
    by (rule allI, rule av(6))
  from M B av(1) A C rv(2-4) D av(3-5) E show ?thesis
    by (intro conjI)
qed

theorem generation_failure_leaves_generating_witness:
  "generateTTS silent_host ''Krebs cycle'' = Inr no_audio_response
   \<and> rv_sequential rv_init [Click res_a]
   \<and> rv_phase (rv_run rv_init [Click res_a]) = Generating ''r1''
   \<and> playingResourceId (rv_run rv_init [Click res_a]) = None
   \<and> av_phase (av_handlePlayTTS av_init ann_a) = Playing ''a1''
   \<and> rv_phase (handlePlayTTS_resumed (rv_run rv_init [Click res_a]) ''r1'' no_audio_response)
       = Idle
   \<and> alerts (handlePlayTTS_resumed (rv_run rv_init [Click res_a]) ''r1'' no_audio_response)
       = [''TTS Error: No audio data returned'']
   \<and> av_phase (av_handlePlayTTS_resumed (av_handlePlayTTS av_init ann_a) ''a1'' no_audio_response)
       = Idle"
proof -
  let ?s = "rv_run rv_init [Click res_a]"
  have 1: "generateTTS silent_host ''Krebs cycle'' = Inr no_audio_response"
    by (simp add: generateTTS_no_audio silent_host_def no_audio_response_def)
  have 2: "audioUrl no_audio_response = None" by (simp add: no_audio_response_def)
  have 3: "rv_phase ?s = Generating ''r1''"
    by (simp add: rv_phase_def rv_defs example_defs)
  have 4: "av_phase (av_handlePlayTTS av_init ann_a) = Playing ''a1''"
    by (simp add: av_phase_def av_defs example_defs)
  have 5: "alerts ?s = []" "playingResourceId ?s = None" "rv_sequential rv_init [Click res_a]"
    by (simp_all add: rv_defs example_defs)
  note all = generation_failure_leaves_generating [OF 1 2 3 4]
  from all have "\<exists>m. m \<noteq> [] \<and> error no_audio_response = Some m
      \<and> alerts (handlePlayTTS_resumed ?s ''r1'' no_audio_response)
          = alerts ?s @ [''TTS Error: '' @ m]
      \<and> alerts (av_handlePlayTTS_resumed (av_handlePlayTTS av_init ann_a) ''a1''
            no_audio_response)
          = alerts (av_handlePlayTTS av_init ann_a) @ [''TTS Error: '' @ m]"
    by (rule conjunct1)
  then obtain m where m: "error no_audio_response = Some m"
    and al: "alerts (handlePlayTTS_resumed ?s ''r1'' no_audio_response)
        = alerts ?s @ [''TTS Error: '' @ m]"
    by (elim exE conjE)
  from all have idle: "playingResourceId ?s = None \<longrightarrow>
      rv_phase (handlePlayTTS_resumed ?s ''r1'' no_audio_response) = Idle"
    by (rule conjunct1 [OF conjunct2])
  from all have av: "av_phase (av_handlePlayTTS_resumed (av_handlePlayTTS av_init ann_a) ''a1''
      no_audio_response) = Idle"
    by (rule conjunct1 [OF conjunct2 [OF conjunct2]])
  from m have msg: "m = ''No audio data returned''" by (simp add: no_audio_response_def)
  from idle 5(2) have i: "rv_phase (handlePlayTTS_resumed ?s ''r1'' no_audio_response) = Idle"
    by (rule mp)
  from al have a: "alerts (handlePlayTTS_resumed ?s ''r1'' no_audio_response)
      = [''TTS Error: No audio data returned'']"
    unfolding msg 5(1) by simp
  from 1 5(3) 3 5(2) 4 i a av show ?thesis by (intro conjI)
qed

text \<open>
  C8 as the specification states it fails on the announcement surface, where
  \<open>handlePlayTTS\<close> returns at once when the requested id is the one playing (its
  button is disabled meanwhile): the phase stays \<open>Playing\<close> and element 0 keeps
  sounding.
\<close>

theorem announcement_toggle_counterexample:
  "av_phase (av_run av_init [AvClick ann_a, AvResolved ''a1'' (ok_response ''blob:1'')])
     = Playing ''a1''
   \<and> sounding (av_run av_init [AvClick ann_a, AvResolved ''a1'' (ok_response ''blob:1'')]) = {0}
   \<and> av_phase (av_run av_init [AvClick ann_a, AvResolved ''a1'' (ok_response ''blob:1''),
        AvClick ann_a]) = Playing ''a1''
   \<and> sounding (av_run av_init [AvClick ann_a, AvResolved ''a1'' (ok_response ''blob:1''),
        AvClick ann_a]) = {0}"
  by (simp add: av_defs example_defs Let_def av_phase_def)

text \<open>
  C8, amended. On the resource surface, requesting playback of the identifier that is
  playing toggles it off: from \<open>Playing(id)\<close> with the stream in the ref, the request
  stops that stream, clears the ref, issues no generation call and leaves the
  controller \<open>Idle\<close>. On the announcement surface the same request is ignored: the
  state is unchanged.
\<close>

theorem toggle_off_resource_view:
  assumes "rv_phase s = Playing (res_id r)" "currentAudioRef s = Some a"
    and "av_phase t = Playing (ann_id item)"
  shows "rv_phase (handlePlayTTS s r) = Idle
     \<and> currentAudioRef (handlePlayTTS s r) = None
     \<and> sounding (handlePlayTTS s r) = sounding s - {a}
     \<and> requests (handlePlayTTS s r) = requests s
     \<and> av_handlePlayTTS t item = t"
proof -
  from assms(1) have g: "generatingAudioId s = None" "playingResourceId s = Some (res_id r)"
    by (auto simp: rv_phase_def split: option.splits)
  from assms(3) have p: "playingId t = Some (ann_id item)"
    by (auto simp: av_phase_def split: option.splits)
  from g assms(2) have "rv_phase (handlePlayTTS s r) = Idle"
    by (simp add: rv_phase_def rv_defs)
  moreover from g assms(2) have "currentAudioRef (handlePlayTTS s r) = None"
    "sounding (handlePlayTTS s r) = sounding s - {a}"
    "requests (handlePlayTTS s r) = requests s"
    by (simp_all add: rv_defs)
  moreover from p have "av_handlePlayTTS t item = t" by (simp add: av_defs)
  ultimately show ?thesis by simp
qed

theorem toggle_off_resource_view_witness:
  "rv_phase (rv_run rv_init [Click res_a, Resolved ''r1'' (ok_response ''blob:1'')])
     = Playing ''r1''
   \<and> sounding (rv_run rv_init [Click res_a, Resolved ''r1'' (ok_response ''blob:1'')]) = {0}
   \<and> rv_phase (handlePlayTTS
        (rv_run rv_init [Click res_a, Resolved ''r1'' (ok_response ''blob:1'')]) res_a) = Idle
   \<and> sounding (handlePlayTTS
        (rv_run rv_init [Click res_a, Resolved ''r1'' (ok_response ''blob:1'')]) res_a) = {}"
proof -
  let ?s = "rv_run rv_init [Click res_a, Resolved ''r1'' (ok_response ''blob:1'')]"
  let ?t = "av_run av_init [AvClick ann_a, AvResolved ''a1'' (ok_response ''blob:1'')]"
  have 1: "rv_phase ?s = Playing (res_id res_a)" "currentAudioRef ?s = Some 0"
    by (simp_all add: rv_phase_def rv_defs example_defs Let_def)
  have 2: "av_phase ?t = Playing (ann_id ann_a)"
    by (simp add: av_phase_def av_defs example_defs Let_def)
  have 3: "sounding ?s = {0}" by (simp add: rv_defs example_defs Let_def)
  from toggle_off_resource_view [OF 1 2] show ?thesis
    using 1(1) 3 by (simp add: res_a_def)
qed

text \<open>
  C7 as the specification states it fails: the update copies the object and sets the
  key, so a second value for the same id replaces the first. In ResourceView two
  generation calls for \<open>r1\<close> can be in flight (a click on another resource enables the
  button of \<open>r1\<close> again); when both resolve, the entry of \<open>r1\<close> changes from the first
  URL to the second.
\<close>

theorem cache_first_writer_counterexample:
  "cache_get (audioCache (rv_run rv_init [Click res_a, Click res_b, Click res_a,
       Resolved ''r1'' (ok_response ''blob:1'')])) ''r1'' = Some ''blob:1''
   \<and> cache_get (audioCache (rv_run rv_init [Click res_a, Click res_b, Click res_a,
       Resolved ''r1'' (ok_response ''blob:1''), Resolved ''r1'' (ok_response ''blob:2'')])) ''r1''
       = Some ''blob:2''
   \<and> cache_get (cache_put (cache_put Map.empty ''r1'' ''blob:1'') ''r1'' ''blob:2'') ''r1''
       = Some ''blob:2''"
  by (simp add: rv_defs example_defs Let_def)

text \<open>
  C7, amended. Playback-cache put is last-writer-wins: after \<open>put(id, handle')\<close> a
  lookup of \<open>id\<close> gives \<open>handle'\<close> whether or not an entry existed, and the entry of
  every other identifier is unchanged; this put is what both views do to their cache
  when a generation call resolves with a URL.
\<close>

theorem cache_put_overwrites:
  "cache_get (cache_put c ident u) ident = Some u
   \<and> (\<forall>j. j \<noteq> ident \<longrightarrow> cache_get (cache_put c ident u) j = cache_get c j)
   \<and> (truthy (audioUrl resp) \<longrightarrow>
        audioCache (handlePlayTTS_resumed s ident resp)
          = cache_put (audioCache s) ident (the (audioUrl resp))
        \<and> audioMap (av_handlePlayTTS_resumed t ident resp)
          = cache_put (audioMap t) ident (the (audioUrl resp)))"
  by (simp add: rv_defs av_defs Let_def)

theorem cache_put_overwrites_witness:
  "cache_get (cache_put (Map.empty(''r1'' \<mapsto> ''blob:1'')) ''r1'' ''blob:2'') ''r1''
     = Some ''blob:2''
   \<and> cache_get (cache_put (Map.empty(''r1'' \<mapsto> ''blob:1'')) ''r1'' ''blob:2'') ''r2''
     = cache_get (Map.empty(''r1'' \<mapsto> ''blob:1'')) ''r2''
   \<and> truthy (audioUrl (ok_response ''blob:2''))
   \<and> audioCache (handlePlayTTS_resumed rv_init ''r1'' (ok_response ''blob:2''))
       = cache_put (audioCache rv_init) ''r1'' ''blob:2''"
proof -
  have 1: "truthy (audioUrl (ok_response ''blob:2''))" "''r2'' \<noteq> ''r1''"
    by (simp_all add: ok_response_def truthy_def)
  from cache_put_overwrites [of "Map.empty(''r1'' \<mapsto> ''blob:1'')" "''r1''" "''blob:2''"
      "ok_response ''blob:2''" rv_init av_init] 1
  show ?thesis by (simp add: ok_response_def)
qed




end
